theory Spec2Isabelle
  imports Main "HOL-Library.Char_ord" "HOL-Library.List_Lexorder"
begin

section \<open>JavaScript strings and numbers\<close>

text \<open>
  A JavaScript string is modelled as a list of characters with codes 0..255, read as the
  code points U+0000..U+00FF: the letter n-tilde of the shift name is \<open>CHR 0xF1\<close>, the
  no-break space \<open>CHR 0xA0\<close> is white space. Strings with code points beyond U+00FF are
  outside the model. Comparison of strings (\<open><\<close>, \<open>\<le>\<close>) is the lexicographic order on
  character codes, as JavaScript and the document store compare them.
\<close>

definition is_digit :: "char \<Rightarrow> bool" where
  "is_digit c = (c \<in> set ''0123456789'')"

text \<open>The characters \<open>\s\<close> and \<open>trim\<close> treat as white space: TAB, LF, VT, FF, CR, SP, NBSP.\<close>

definition is_space :: "char \<Rightarrow> bool" where
  "is_space c = ((of_char c :: nat) \<in> {9, 10, 11, 12, 13, 32, 160})"

definition trim :: "string \<Rightarrow> string" where
  "trim s = rev (dropWhile is_space (rev (dropWhile is_space s)))"

text \<open>
  \<open>toLowerCase\<close> on U+0000..U+00FF: the letters A..Z and U+00C0..U+00DE (but the
  multiplication sign U+00D7) move up by 32, which sets bit 5 of the code.
\<close>

definition toLowerCase_char :: "char \<Rightarrow> char" where
  "toLowerCase_char c =
     (let n = (of_char c :: nat)
      in if (65 \<le> n \<and> n \<le> 90) \<or> (192 \<le> n \<and> n \<le> 222 \<and> n \<noteq> 215)
         then (case c of Char b0 b1 b2 b3 b4 b5 b6 b7 \<Rightarrow> Char b0 b1 b2 b3 b4 True b6 b7)
         else c)"

definition toLowerCase :: "string \<Rightarrow> string" where
  "toLowerCase s = map toLowerCase_char s"

definition digit_char :: "nat \<Rightarrow> char" where
  "digit_char d = ''0123456789'' ! d"

definition digit_val :: "char \<Rightarrow> nat" where
  "digit_val c = (of_char c :: nat) - 48"

text \<open>\<open>parseInt\<close> and \<open>Number\<close> on a string of decimal digits.\<close>

definition parseInt :: "string \<Rightarrow> nat" where
  "parseInt s = foldl (\<lambda>n c. 10 * n + digit_val c) 0 s"

text \<open>\<open>Number.prototype.toString\<close> on a natural number and on an integer.\<close>

fun toString :: "nat \<Rightarrow> string" where
  "toString n =
     (if n < 10 then [digit_char n]
      else toString (n div 10) @ [digit_char (n mod 10)])"

declare toString.simps [simp del]

definition int_toString :: "int \<Rightarrow> string" where
  "int_toString i = (if i < 0 then CHR ''-'' # toString (nat (- i)) else toString (nat i))"

text \<open>\<open>s.padStart(w, '0')\<close>.\<close>

definition padStart0 :: "nat \<Rightarrow> string \<Rightarrow> string" where
  "padStart0 w s = replicate (w - length s) CHR ''0'' @ s"

text \<open>\<open>s.split(sep)\<close> for a separator of one character.\<close>

fun split_on :: "char \<Rightarrow> string \<Rightarrow> string list" where
  "split_on sep [] = [[]]"
| "split_on sep (c # cs) =
     (if c = sep then [] # split_on sep cs
      else (case split_on sep cs of
              [] \<Rightarrow> [[c]]
            | p # ps \<Rightarrow> (c # p) # ps))"

definition all_digits :: "string \<Rightarrow> bool" where
  "all_digits s = list_all is_digit s"

section \<open>Errors\<close>

text \<open>
  Every \<open>throw\<close> of the source is a value of this type; \<open>message\<close> is the thrown
  error's \<open>message\<close> property. A validation error of the schema library carries the
  paths of the fields that failed (the library's own message texts are not modelled).
  \<open>NotFound404\<close> and \<open>Conflict409\<close> are the error responses of the document store
  with the status codes 404 and 409; \<open>CosmosFailure\<close> is any other failure of a call to the
  store, with its message (its code, which the program never reads, is left out).
\<close>

datatype error =
    ZodError "string list"
  | DatosInvalidos "string list"
  | TurnoYVacaciones
  | HorasIncompletas
  | HoraInicioPosterior
  | FormatoFechaNoValido string
  | InvalidDateFormat string
  | InvalidTimeFormat string
  | YaExisteTurno string
  | NotFound404
  | Conflict409
  | CosmosFailure string

text \<open>
  The \<open>message\<close> of a thrown error, where the source fixes its text. The texts of the
  schema library's validation error and of the store's 404 and 409 responses belong to
  those libraries and are left unspecified, and so is the text of the invalid-data error,
  which quotes the library's texts; no warning of a batch or of an import is built from
  them.
\<close>

fun message :: "error \<Rightarrow> string" where
  "message TurnoYVacaciones =
     ''No se puede tener un turno espec'' @ [CHR 0xED]
     @ ''fico y marcar como vacaciones al mismo tiempo''"
| "message HorasIncompletas =
     ''Debe proporcionar tanto la hora de inicio como la hora de fin del turno, o ninguna de las dos''"
| "message HoraInicioPosterior =
     ''La hora de inicio debe ser anterior a la hora de fin (excepto para turnos nocturnos que cruzan medianoche)''"
| "message (FormatoFechaNoValido input) =
     ''Formato de fecha no v'' @ [CHR 0xE1] @ ''lido: '' @ input
     @ ''. Use YYYY-MM-DD o el formato apropiado para su regi'' @ [CHR 0xF3] @ ''n''"
| "message (InvalidDateFormat cleaned) = ''Invalid date format: '' @ cleaned"
| "message (InvalidTimeFormat cleaned) = ''Invalid time format: '' @ cleaned"
| "message (YaExisteTurno f) = ''Ya existe un turno para la fecha '' @ f"
| "message (CosmosFailure msg) = msg"

section \<open>The date utility\<close>

text \<open>The configuration's field \<open>locale\<close> is named \<open>locale_name\<close> here.\<close>

record LocaleConfig =
  timezone :: string
  locale_name :: string
  weekStartsOn :: "nat option"

text \<open>
  A JavaScript \<open>Date\<close> built from calendar fields and read back with \<open>getFullYear\<close>,
  \<open>getMonth\<close> and \<open>getDate\<close> in the same local time zone is modelled by the number
  of its local calendar day, counted from 1970-01-01 in the proleptic Gregorian calendar.
  \<open>days_from_civil\<close> is the day number of a year, a month 1..12 and a day;
  \<open>civil_from_days\<close> is the year, month and day of a day number.
\<close>

definition days_from_civil :: "int \<Rightarrow> int \<Rightarrow> int \<Rightarrow> int" where
  "days_from_civil y m d =
     (let y' = (if m \<le> 2 then y - 1 else y);
          era = y' div 400;
          yoe = y' - era * 400;
          doy = (153 * (if m > 2 then m - 3 else m + 9) + 2) div 5 + d - 1;
          doe = yoe * 365 + yoe div 4 - yoe div 100 + doy
      in era * 146097 + doe - 719468)"

definition civil_from_days :: "int \<Rightarrow> int \<times> int \<times> int" where
  "civil_from_days z0 =
     (let z = z0 + 719468;
          era = z div 146097;
          doe = z - era * 146097;
          yoe = (doe - doe div 1460 + doe div 36524 - doe div 146096) div 365;
          y = yoe + era * 400;
          doy = doe - (365 * yoe + yoe div 4 - yoe div 100);
          mp = (5 * doy + 2) div 153;
          d = doy - (153 * mp + 2) div 5 + 1;
          m = (if mp < 10 then mp + 3 else mp - 9)
      in (if m \<le> 2 then y + 1 else y, m, d))"

text \<open>
  \<open>new Date(year, monthIndex, day)\<close>: a year 0..99 means 1900 + year; a month index
  outside 0..11 and a day outside the month carry over into the neighbouring months and
  years.
\<close>

definition Date_ymd :: "int \<Rightarrow> int \<Rightarrow> int \<Rightarrow> int" where
  "Date_ymd year monthIndex day =
     (let yr = (if 0 \<le> year \<and> year \<le> 99 then 1900 + year else year);
          ym = yr + monthIndex div 12;
          mn = monthIndex mod 12
      in days_from_civil ym (mn + 1) 1 + (day - 1))"

text \<open>
  \<open>Number(s)\<close>: the value of a string of digits, 0 for the empty string. \<open>None\<close> is
  NaN. Other numeric literals (signs, fractions, exponents, white space) are not modelled:
  the source applies \<open>Number\<close> only to pieces of strings that matched a pattern of digits.
\<close>

definition Number :: "string \<Rightarrow> nat option" where
  "Number s = (if all_digits s then Some (parseInt s) else None)"

definition startsWith :: "string \<Rightarrow> string \<Rightarrow> bool" where
  "startsWith s p = (take (length p) s = p)"

record LocalizedDate =
  date :: "int option"
  config :: LocaleConfig

text \<open>
  \<open>LocalizedDate.fromShort\<close>. \<open>glob\<close> is the global locale configuration, used when
  no configuration is passed. A date of \<open>None\<close> is the invalid date that JavaScript
  builds from NaN or from a missing piece.
\<close>

definition fromShort :: "LocaleConfig \<Rightarrow> string \<Rightarrow> LocaleConfig option \<Rightarrow> LocalizedDate" where
  "fromShort glob dateStr cfg =
     (let localeConfig = (case cfg of Some c \<Rightarrow> c | None \<Rightarrow> glob)
      in if startsWith (locale_name localeConfig) ''en-US'' then
           (case map Number (split_on CHR ''/'' dateStr) of
              Some month # Some day # Some year # _ \<Rightarrow>
                \<lparr>date = Some (Date_ymd (int year) (int month - 1) (int day)),
                 config = localeConfig\<rparr>
            | _ \<Rightarrow> \<lparr>date = None, config = localeConfig\<rparr>)
         else
           (case map Number (split_on CHR ''/'' dateStr) of
              Some day # Some month # Some year # _ \<Rightarrow>
                \<lparr>date = Some (Date_ymd (int year) (int month - 1) (int day)),
                 config = localeConfig\<rparr>
            | _ \<Rightarrow> \<lparr>date = None, config = localeConfig\<rparr>))"

definition formatISO :: "LocalizedDate \<Rightarrow> string" where
  "formatISO d =
     (case date d of
        None \<Rightarrow> ''0NaN-NaN-NaN''
      | Some z \<Rightarrow>
          (case civil_from_days z of
             (year, month, day) \<Rightarrow>
               padStart0 4 (int_toString year) @ ''-'' @ padStart0 2 (int_toString month)
               @ ''-'' @ padStart0 2 (int_toString day)))"

text \<open>\<open>/^\d{4}-\d{2}-\d{2}$/\<close>, the canonical form of a date.\<close>

definition iso_date_regex :: "string \<Rightarrow> bool" where
  "iso_date_regex s =
     (length s = 10 \<and> all_digits (take 4 s) \<and> s ! 4 = CHR ''-''
      \<and> all_digits (take 2 (drop 5 s)) \<and> s ! 7 = CHR ''-'' \<and> all_digits (drop 8 s))"

text \<open>
  \<open>/^\d{1,2}\/\d{1,2}\/\d{4}$/\<close>: three runs of digits between two slashes (a run of
  digits holds no slash, so the string splits at the slashes into exactly these runs).
\<close>

definition short_date_regex :: "string \<Rightarrow> bool" where
  "short_date_regex s =
     (case split_on CHR ''/'' s of
        [a, b, c] \<Rightarrow>
          all_digits a \<and> (length a = 1 \<or> length a = 2)
          \<and> all_digits b \<and> (length b = 1 \<or> length b = 2)
          \<and> all_digits c \<and> length c = 4
      | _ \<Rightarrow> False)"

definition normalizeDateInput :: "LocaleConfig \<Rightarrow> string \<Rightarrow> LocaleConfig option \<Rightarrow> error + string" where
  "normalizeDateInput glob input cfg =
     (if iso_date_regex input then Inr input
      else if short_date_regex input then Inr (formatISO (fromShort glob input cfg))
      else Inl (FormatoFechaNoValido input))"

text \<open>The server's default configuration (\<open>detectServerLocale\<close> with no environment set).\<close>

definition detectServerLocale :: LocaleConfig where
  "detectServerLocale =
     \<lparr>timezone = ''America/Argentina/Buenos_Aires'', locale_name = ''es-AR'', weekStartsOn = Some 1\<rparr>"

section \<open>Clock times: the canonical pattern and the time columns of a spreadsheet\<close>

text \<open>
  \<open>/^([01]\d|2[0-3]):([0-5]\d)$/\<close>, the canonical 24-hour form.
\<close>

definition hhmm_regex :: "string \<Rightarrow> bool" where
  "hhmm_regex s =
     (case s of
        [h1, h2, c, m1, m2] \<Rightarrow>
          ((h1 \<in> set ''01'' \<and> is_digit h2) \<or> (h1 = CHR ''2'' \<and> h2 \<in> set ''0123''))
          \<and> c = CHR '':'' \<and> m1 \<in> set ''012345'' \<and> is_digit m2
      | _ \<Rightarrow> False)"

text \<open>
  \<open>/^(\d{1,2}):?(\d{2})?\s*(am|pm)?$/i\<close>. The tail \<open>\s*(am|pm)?$\<close>: after the white
  space the rest is \<open>am\<close> or \<open>pm\<close> in either case, or empty (giving back white space cannot
  help, since neither alternative nor the end matches a white-space character).
\<close>

definition time_tail :: "string \<Rightarrow> string option option" where
  "time_tail r =
     (let r' = dropWhile is_space r
      in if toLowerCase r' = ''am'' \<or> toLowerCase r' = ''pm'' then Some (Some r')
         else if r' = [] then Some None
         else None)"

text \<open>
  One way through the expression: \<open>h\<close> digits for the hours, the colon taken or not, the
  two digits of the minutes taken or not, then the tail.
\<close>

definition time_attempt ::
  "string \<Rightarrow> nat \<Rightarrow> bool \<Rightarrow> bool \<Rightarrow> (string \<times> string option \<times> string option) option" where
  "time_attempt s h colon mins =
     (let hs = take h s; r1 = drop h s
      in if length hs = h \<and> all_digits hs then
           (case (if colon
                  then (case r1 of [] \<Rightarrow> None
                        | x # r \<Rightarrow> if x = CHR '':'' then Some r else None)
                  else Some r1) of
              None \<Rightarrow> None
            | Some r2 \<Rightarrow>
                (case (if mins
                       then (if length (take 2 r2) = 2 \<and> all_digits (take 2 r2)
                             then Some (Some (take 2 r2), drop 2 r2) else None)
                       else Some (None, r2)) of
                   None \<Rightarrow> None
                 | Some (ms, r3) \<Rightarrow>
                     (case time_tail r3 of
                        None \<Rightarrow> None
                      | Some ap \<Rightarrow> Some (hs, ms, ap))))
         else None)"

text \<open>
  The match is the first attempt that succeeds, in the order of a backtracking matcher
  with greedy quantifiers: two digits of hours before one, the colon taken before
  skipped, the minutes taken before skipped.
\<close>

fun first_some :: "'a option list \<Rightarrow> 'a option" where
  "first_some [] = None"
| "first_some (None # xs) = first_some xs"
| "first_some (Some x # xs) = Some x"

definition timeRegex_match :: "string \<Rightarrow> (string \<times> string option \<times> string option) option" where
  "timeRegex_match s =
     first_some
       [time_attempt s 2 True True, time_attempt s 2 True False,
        time_attempt s 2 False True, time_attempt s 2 False False,
        time_attempt s 1 True True, time_attempt s 1 True False,
        time_attempt s 1 False True, time_attempt s 1 False False]"

text \<open>
  The transform of the \<open>startshift\<close> column. The value is a string or undefined
  (\<open>None\<close>); \<open>!val\<close> holds for undefined and for the empty string. \<open>hour\<close> and
  \<open>min\<close> are parsed from digits, so the source's tests \<open>hour < 0\<close> and \<open>min < 0\<close>
  never hold and the numbers are naturals.
\<close>

definition startshift :: "string option \<Rightarrow> error + string option" where
  "startshift val =
     (case val of
        None \<Rightarrow> Inr None
      | Some v \<Rightarrow>
          if v = [] \<or> trim v = [] then Inr None
          else
            (let cleaned = trim v
             in case timeRegex_match cleaned of
                  Some (hours, minutes, ampm) \<Rightarrow>
                    (let hour0 = parseInt hours;
                         min = parseInt (case minutes of None \<Rightarrow> ''00'' | Some m \<Rightarrow> m);
                         hour =
                           (case ampm of
                              None \<Rightarrow> hour0
                            | Some a \<Rightarrow>
                                (let isAM = (toLowerCase a = ''am'')
                                 in if isAM \<and> hour0 = 12 then 0
                                    else if \<not> isAM \<and> hour0 \<noteq> 12 then hour0 + 12
                                    else hour0))
                     in if hour > 23 \<or> min > 59 then Inl (InvalidTimeFormat cleaned)
                        else Inr (Some (padStart0 2 (toString hour) @ '':''
                                        @ padStart0 2 (toString min))))
                | None \<Rightarrow>
                    if hhmm_regex cleaned then Inr (Some cleaned)
                    else Inl (InvalidTimeFormat cleaned)))"

text \<open>The transform of the \<open>endshift\<close> column, written out a second time in the source.\<close>

definition endshift :: "string option \<Rightarrow> error + string option" where
  "endshift val =
     (case val of
        None \<Rightarrow> Inr None
      | Some v \<Rightarrow>
          if v = [] \<or> trim v = [] then Inr None
          else
            (let cleaned = trim v
             in case timeRegex_match cleaned of
                  Some (hours, minutes, ampm) \<Rightarrow>
                    (let hour0 = parseInt hours;
                         min = parseInt (case minutes of None \<Rightarrow> ''00'' | Some m \<Rightarrow> m);
                         hour =
                           (case ampm of
                              None \<Rightarrow> hour0
                            | Some a \<Rightarrow>
                                (let isAM = (toLowerCase a = ''am'')
                                 in if isAM \<and> hour0 = 12 then 0
                                    else if \<not> isAM \<and> hour0 \<noteq> 12 then hour0 + 12
                                    else hour0))
                     in if hour > 23 \<or> min > 59 then Inl (InvalidTimeFormat cleaned)
                        else Inr (Some (padStart0 2 (toString hour) @ '':''
                                        @ padStart0 2 (toString min))))
                | None \<Rightarrow>
                    if hhmm_regex cleaned then Inr (Some cleaned)
                    else Inl (InvalidTimeFormat cleaned)))"

section \<open>The schema of a spreadsheet row\<close>

text \<open>
  \<open>/^(\d{1,2})[\/\-](\d{1,2})[\/\-](\d{4})$/\<close>, one way through it: \<open>dl\<close> digits of
  the day, a separator, \<open>ml\<close> digits of the month, a separator, four digits of the year.
\<close>

definition date_attempt :: "string \<Rightarrow> nat \<Rightarrow> nat \<Rightarrow> (string \<times> string \<times> string) option" where
  "date_attempt s dl ml =
     (let day = take dl s; r1 = drop dl s
      in if length day = dl \<and> all_digits day then
           (case r1 of
              [] \<Rightarrow> None
            | sep1 # r2 \<Rightarrow>
                if sep1 \<in> set ''/-'' then
                  (let month = take ml r2; r3 = drop ml r2
                   in if length month = ml \<and> all_digits month then
                        (case r3 of
                           [] \<Rightarrow> None
                         | sep2 # year \<Rightarrow>
                             if sep2 \<in> set ''/-'' \<and> length year = 4 \<and> all_digits year
                             then Some (day, month, year) else None)
                      else None)
                else None)
         else None)"

definition dateRegex_match :: "string \<Rightarrow> (string \<times> string \<times> string) option" where
  "dateRegex_match s =
     first_some [date_attempt s 2 2, date_attempt s 2 1, date_attempt s 1 2, date_attempt s 1 1]"

text \<open>The transform of the \<open>fecha\<close> column.\<close>

definition excel_fecha :: "string \<Rightarrow> error + string" where
  "excel_fecha val =
     (let cleaned = trim val
      in case dateRegex_match cleaned of
           Some (day, month, year) \<Rightarrow>
             Inr (year @ ''-'' @ padStart0 2 month @ ''-'' @ padStart0 2 day)
         | None \<Rightarrow>
             if iso_date_regex cleaned then Inr cleaned
             else Inl (InvalidDateFormat cleaned))"

text \<open>The transform of the \<open>turno\<close> column: \<open>val?.toLowerCase().trim()\<close>.\<close>

definition excel_turno :: "string option \<Rightarrow> string option" where
  "excel_turno val = map_option (\<lambda>v. trim (toLowerCase v)) val"

text \<open>A cell of the \<open>vacaciones\<close> column: a string, a number or a boolean.\<close>

datatype cell = CellString string | CellNumber int | CellBoolean bool

definition excel_vacaciones :: "cell \<Rightarrow> bool" where
  "excel_vacaciones val =
     (case val of
        CellBoolean b \<Rightarrow> b
      | CellNumber n \<Rightarrow> n = 1
      | CellString s \<Rightarrow>
          (let lower = trim (toLowerCase s)
           in lower = ''s'' @ [CHR 0xED] \<or> lower = ''si'' \<or> lower = ''true'' \<or> lower = ''1''))"

text \<open>The transform of the \<open>notas\<close> column: \<open>val?.trim() || ''\<close>.\<close>

definition excel_notas :: "string option \<Rightarrow> string" where
  "excel_notas val = (case val of None \<Rightarrow> [] | Some v \<Rightarrow> trim v)"

text \<open>A row as the spreadsheet gives it, and a row after the schema.\<close>

record ExcelRow =
  row_fecha :: string
  row_turno :: "string option"
  row_startshift :: "string option"
  row_endshift :: "string option"
  row_vacaciones :: cell
  row_notas :: "string option"

record ValidatedRow =
  v_fecha :: string
  v_turno :: "string option"
  v_startshift :: "string option"
  v_endshift :: "string option"
  v_vacaciones :: bool
  v_notas :: string

text \<open>
  \<open>excelRowSchema.parse\<close> on a row of the type above: the transforms run in the order of
  the schema's keys, and the first one that throws ends the parse with its error. (On such
  a row the schema raises no validation error of its own.)
\<close>

definition excelRowSchema_parse :: "ExcelRow \<Rightarrow> error + ValidatedRow" where
  "excelRowSchema_parse row =
     (case excel_fecha (row_fecha row) of
        Inl err \<Rightarrow> Inl err
      | Inr f \<Rightarrow>
          (case startshift (row_startshift row) of
             Inl err \<Rightarrow> Inl err
           | Inr s \<Rightarrow>
               (case endshift (row_endshift row) of
                  Inl err \<Rightarrow> Inl err
                | Inr en \<Rightarrow>
                    Inr \<lparr>v_fecha = f, v_turno = excel_turno (row_turno row),
                         v_startshift = s, v_endshift = en,
                         v_vacaciones = excel_vacaciones (row_vacaciones row),
                         v_notas = excel_notas (row_notas row)\<rparr>)))"

section \<open>The turno model\<close>

text \<open>
  An optional property of an input object is in one of three states, which the spread of
  an object tells apart: the key is missing, the key is present with the value
  \<open>undefined\<close>, or the key holds a value.
\<close>

datatype 'a optional = Missing | Undefined | Value 'a

text \<open>The value read from a property: \<open>undefined\<close> for a missing key as well.\<close>

definition value_of :: "'a optional \<Rightarrow> 'a option" where
  "value_of p = (case p of Value v \<Rightarrow> Some v | _ \<Rightarrow> None)"

text \<open>Truthiness of an optional string property: it holds a non-empty string.\<close>

definition truthy :: "string optional \<Rightarrow> bool" where
  "truthy p = (case p of Value v \<Rightarrow> v \<noteq> [] | _ \<Rightarrow> False)"

record TurnoInsert =
  fecha :: string
  turno :: "string optional"
  startShift :: "string optional"
  endShift :: "string optional"
  esVacaciones :: bool
  notas :: string
  personaId :: "string optional"

text \<open>
  A stored document, as the store returns it: a property that was \<open>undefined\<close> when the
  document was written is absent (\<open>None\<close>). The store's own metadata is left out. The
  fields \<open>id\<close>, \<open>fecha\<close>, \<open>turno\<close> and so on are named \<open>doc_id\<close>,
  \<open>doc_fecha\<close>, \<open>doc_turno\<close> here, apart from those of the input.
\<close>

record TurnoDocument =
  doc_id :: string
  doc_fecha :: string
  doc_turno :: "string option"
  doc_startShift :: "string option"
  doc_endShift :: "string option"
  doc_esVacaciones :: bool
  doc_notas :: string
  doc_personaId :: "string option"
  createdAt :: string
  updatedAt :: string

definition manana :: string where
  "manana = ''ma'' @ [CHR 0xF1] @ ''ana''"

text \<open>
  \<open>turnoInsertSchema.parse\<close> on an object of the type \<open>TurnoInsert\<close>: the date, the
  shift and the two times are checked where they hold a value; a valid object is returned
  as it is (a key that is missing stays missing, a key that holds \<open>undefined\<close> stays
  so). The error lists the paths of the failed fields, in the schema's order.
\<close>

definition turnoInsertSchema_issues :: "TurnoInsert \<Rightarrow> string list" where
  "turnoInsertSchema_issues data =
     (if iso_date_regex (fecha data) then [] else [''fecha''])
     @ (case turno data of
          Value t \<Rightarrow> if t = manana \<or> t = ''tarde'' \<or> t = ''noche'' then [] else [''turno'']
        | _ \<Rightarrow> [])
     @ (case startShift data of
          Value s \<Rightarrow> if hhmm_regex s then [] else [''startShift'']
        | _ \<Rightarrow> [])
     @ (case endShift data of
          Value s \<Rightarrow> if hhmm_regex s then [] else [''endShift'']
        | _ \<Rightarrow> [])"

definition turnoInsertSchema_parse :: "TurnoInsert \<Rightarrow> error + TurnoInsert" where
  "turnoInsertSchema_parse data =
     (if turnoInsertSchema_issues data = [] then Inr data
      else Inl (ZodError (turnoInsertSchema_issues data)))"

definition generateTurnoId :: "string \<Rightarrow> string option \<Rightarrow> string" where
  "generateTurnoId f p =
     (case p of
        Some pid \<Rightarrow> if pid \<noteq> [] then f @ ''_'' @ pid else f
      | None \<Rightarrow> f)"

text \<open>\<open>createTurnoDocument\<close>; \<open>now\<close> is the time read from the clock.\<close>

definition createTurnoDocument :: "string \<Rightarrow> TurnoInsert \<Rightarrow> TurnoDocument" where
  "createTurnoDocument now data =
     \<lparr>doc_id = generateTurnoId (fecha data) (value_of (personaId data)),
      doc_fecha = fecha data,
      doc_turno = value_of (turno data),
      doc_startShift = value_of (startShift data),
      doc_endShift = value_of (endShift data),
      doc_esVacaciones = esVacaciones data,
      doc_notas = (if notas data \<noteq> [] then notas data else []),
      doc_personaId = value_of (personaId data),
      createdAt = now,
      updatedAt = now\<rparr>"

section \<open>The document store\<close>

text \<open>
  The container of the document store, an external collaborator: the documents it holds,
  each under its partition key \<open>doc_fecha\<close> and its \<open>doc_id\<close>; the number of calls
  made to it so far; and, for the statements about persistence, the log of the documents
  written by successful calls.

  The environment decides which calls fail: \<open>fault n = Some msg\<close> makes the call number
  \<open>n\<close> fail with the message \<open>msg\<close> (a time-out, throttling, the service being
  unavailable), leaving the container as it was. The answers 404 (no such document) and
  409 (the document exists already) are given by the container from its contents only.
  \<open>now n\<close> is the time the clock shows after \<open>n\<close> calls.
\<close>

record Container =
  documents :: "TurnoDocument list"
  calls :: nat
  written :: "TurnoDocument list"

record env =
  fault :: "nat \<Rightarrow> string option"
  now :: "nat \<Rightarrow> string"

definition at_key :: "string \<Rightarrow> string \<Rightarrow> TurnoDocument \<Rightarrow> bool" where
  "at_key i pk d = (doc_id d = i \<and> doc_fecha d = pk)"

definition tick :: "Container \<Rightarrow> Container" where
  "tick c = c\<lparr>calls := Suc (calls c)\<rparr>"

text \<open>\<open>container.item(i, pk).read()\<close>: the resource is undefined when there is no such item.\<close>

definition container_read ::
  "env \<Rightarrow> string \<Rightarrow> string \<Rightarrow> Container \<Rightarrow> (error + TurnoDocument option) \<times> Container" where
  "container_read e i pk c =
     (case fault e (calls c) of
        Some msg \<Rightarrow> (Inl (CosmosFailure msg), tick c)
      | None \<Rightarrow> (Inr (find (at_key i pk) (documents c)), tick c))"

text \<open>\<open>container.items.create(document)\<close>.\<close>

definition container_create ::
  "env \<Rightarrow> TurnoDocument \<Rightarrow> Container \<Rightarrow> (error + TurnoDocument) \<times> Container" where
  "container_create e d c =
     (case fault e (calls c) of
        Some msg \<Rightarrow> (Inl (CosmosFailure msg), tick c)
      | None \<Rightarrow>
          if find (at_key (doc_id d) (doc_fecha d)) (documents c) \<noteq> None
          then (Inl Conflict409, tick c)
          else (Inr d, tick (c\<lparr>documents := documents c @ [d], written := written c @ [d]\<rparr>)))"

text \<open>\<open>container.item(i, pk).replace(document)\<close>.\<close>

definition replace_at :: "string \<Rightarrow> string \<Rightarrow> TurnoDocument \<Rightarrow> TurnoDocument \<Rightarrow> TurnoDocument" where
  "replace_at i pk d x = (if at_key i pk x then d else x)"

definition container_replace ::
  "env \<Rightarrow> string \<Rightarrow> string \<Rightarrow> TurnoDocument \<Rightarrow> Container \<Rightarrow> (error + TurnoDocument) \<times> Container" where
  "container_replace e i pk d c =
     (case fault e (calls c) of
        Some msg \<Rightarrow> (Inl (CosmosFailure msg), tick c)
      | None \<Rightarrow>
          if find (at_key i pk) (documents c) = None
          then (Inl NotFound404, tick c)
          else (Inr d,
                tick (c\<lparr>documents := map (replace_at i pk d) (documents c),
                         written := written c @ [d]\<rparr>)))"

section \<open>The repository\<close>

text \<open>
  The operations of \<open>TurnoRepository\<close>, the repository on the document store. (The
  repository on the JSON file refuses every mutation; of it only the statistics are
  modelled, further down.)
\<close>

definition findById ::
  "env \<Rightarrow> string \<Rightarrow> string \<Rightarrow> Container \<Rightarrow> (error + TurnoDocument option) \<times> Container" where
  "findById e i partitionKey c =
     (case container_read e i partitionKey c of
        (Inl NotFound404, c') \<Rightarrow> (Inr None, c')
      | (Inl err, c') \<Rightarrow> (Inl err, c')
      | (Inr resource, c') \<Rightarrow> (Inr resource, c'))"

definition findByFecha ::
  "env \<Rightarrow> string \<Rightarrow> string option \<Rightarrow> Container \<Rightarrow> (error + TurnoDocument option) \<times> Container" where
  "findByFecha e f p c = findById e (generateTurnoId f p) f c"

definition create :: "env \<Rightarrow> TurnoInsert \<Rightarrow> Container \<Rightarrow> (error + TurnoDocument) \<times> Container" where
  "create e data c =
     (case container_create e (createTurnoDocument (now e (calls c)) data) c of
        (Inl Conflict409, c') \<Rightarrow> (Inl (YaExisteTurno (fecha data)), c')
      | (Inl err, c') \<Rightarrow> (Inl err, c')
      | (Inr resource, c') \<Rightarrow> (Inr resource, c'))"

text \<open>
  The spread \<open>{...existing, ...data}\<close> on one optional property: a missing key keeps the
  stored value, a key that is present overrides it, and a key holding \<open>undefined\<close> is
  dropped when the document is written.
\<close>

definition overlay :: "'a option \<Rightarrow> 'a optional \<Rightarrow> 'a option" where
  "overlay old p = (case p of Missing \<Rightarrow> old | Undefined \<Rightarrow> None | Value v \<Rightarrow> Some v)"

text \<open>\<open>{...existing, ...data, updatedAt: new Date().toISOString()}\<close>.\<close>

definition updatedDocument :: "TurnoDocument \<Rightarrow> TurnoInsert \<Rightarrow> string \<Rightarrow> TurnoDocument" where
  "updatedDocument existing data t =
     \<lparr>doc_id = doc_id existing,
      doc_fecha = fecha data,
      doc_turno = overlay (doc_turno existing) (turno data),
      doc_startShift = overlay (doc_startShift existing) (startShift data),
      doc_endShift = overlay (doc_endShift existing) (endShift data),
      doc_esVacaciones = esVacaciones data,
      doc_notas = notas data,
      doc_personaId = overlay (doc_personaId existing) (personaId data),
      createdAt = createdAt existing,
      updatedAt = t\<rparr>"

text \<open>
  \<open>update\<close>, called by \<open>upsert\<close> with an object of the type \<open>TurnoInsert\<close>. The result
  \<open>None\<close> is the source's \<open>null\<close>.
\<close>

definition update ::
  "env \<Rightarrow> string \<Rightarrow> TurnoInsert \<Rightarrow> Container \<Rightarrow> (error + TurnoDocument option) \<times> Container" where
  "update e i data c =
     (case container_read e i
             (if fecha data \<noteq> [] then fecha data else hd (split_on CHR ''_'' i)) c of
        (Inl NotFound404, c') \<Rightarrow> (Inr None, c')
      | (Inl err, c') \<Rightarrow> (Inl err, c')
      | (Inr None, c') \<Rightarrow> (Inr None, c')
      | (Inr (Some existing), c') \<Rightarrow>
          (let doc = updatedDocument existing data (now e (calls c'))
           in case container_replace e i (doc_fecha doc) doc c' of
                (Inl NotFound404, c'') \<Rightarrow> (Inr None, c'')
              | (Inl err, c'') \<Rightarrow> (Inl err, c'')
              | (Inr resource, c'') \<Rightarrow> (Inr (Some resource), c'')))"

definition upsert ::
  "env \<Rightarrow> TurnoInsert \<Rightarrow> Container \<Rightarrow> (error + TurnoDocument option) \<times> Container" where
  "upsert e data c =
     (case findByFecha e (fecha data) (value_of (personaId data)) c of
        (Inl err, c') \<Rightarrow> (Inl err, c')
      | (Inr (Some existing), c') \<Rightarrow> update e (doc_id existing) data c'
      | (Inr None, c') \<Rightarrow>
          (case create e data c' of
             (Inl err, c'') \<Rightarrow> (Inl err, c'')
           | (Inr d, c'') \<Rightarrow> (Inr (Some d), c'')))"

section \<open>The repository: many turnos\<close>

record BulkResult =
  inserted :: nat
  updated :: nat
  skipped :: nat
  warnings :: "string list"
  items :: "TurnoDocument option list"

text \<open>The \<open>catch\<close> of the loop's body.\<close>

definition bulk_skip :: "BulkResult \<Rightarrow> TurnoInsert \<Rightarrow> error \<Rightarrow> BulkResult" where
  "bulk_skip r turnoData err =
     r\<lparr>skipped := skipped r + 1,
       warnings := warnings r
         @ [''Error procesando turno para fecha '' @ fecha turnoData @ '': '' @ message err]\<rparr>"

text \<open>The body of the loop of \<open>bulkUpsert\<close>, on the counters and the container.\<close>

definition bulkUpsert_step ::
  "env \<Rightarrow> TurnoInsert \<Rightarrow> BulkResult \<times> Container \<Rightarrow> BulkResult \<times> Container" where
  "bulkUpsert_step e turnoData rc =
     (case rc of
        (r, c) \<Rightarrow>
          (case findByFecha e (fecha turnoData) (value_of (personaId turnoData)) c of
             (Inl err, c1) \<Rightarrow> (bulk_skip r turnoData err, c1)
           | (Inr existing, c1) \<Rightarrow>
               (case upsert e turnoData c1 of
                  (Inl err, c2) \<Rightarrow> (bulk_skip r turnoData err, c2)
                | (Inr result, c2) \<Rightarrow>
                    (if existing \<noteq> None
                     then r\<lparr>updated := updated r + 1, items := items r @ [result]\<rparr>
                     else r\<lparr>inserted := inserted r + 1, items := items r @ [result]\<rparr>,
                     c2))))"

fun bulkUpsert_loop ::
  "env \<Rightarrow> TurnoInsert list \<Rightarrow> BulkResult \<times> Container \<Rightarrow> BulkResult \<times> Container" where
  "bulkUpsert_loop e [] rc = rc"
| "bulkUpsert_loop e (turnoData # rest) rc =
     bulkUpsert_loop e rest (bulkUpsert_step e turnoData rc)"

definition bulkUpsert :: "env \<Rightarrow> TurnoInsert list \<Rightarrow> Container \<Rightarrow> BulkResult \<times> Container" where
  "bulkUpsert e turnosData c =
     bulkUpsert_loop e turnosData
       (\<lparr>inserted = 0, updated = 0, skipped = 0, warnings = [], items = []\<rparr>, c)"

section \<open>The repositories: statistics\<close>

text \<open>
  The result's \<open>porTurno\<close> is an object used as a dictionary from shift names to counts;
  it is modelled as a map. A stored shift is one of the three shift names by the type of
  \<open>TurnoDocument\<close>; other strings are tallied under their own name, and names of
  members that every JavaScript object inherits (such as \<open>constructor\<close>) are outside the
  model.
\<close>

text \<open>The field \<open>total\<close> of the result is named \<open>total_stats\<close> here.\<close>

record Stats =
  total_stats :: nat
  porTurno :: "string \<Rightarrow> nat option"
  vacaciones :: nat

text \<open>
  Truthiness of an optional string (undefined and the empty string are falsy), and the
  string it holds.
\<close>

definition truthy_str :: "string option \<Rightarrow> bool" where
  "truthy_str x = (case x of None \<Rightarrow> False | Some s \<Rightarrow> s \<noteq> [])"

definition str_of :: "string option \<Rightarrow> string" where
  "str_of x = (case x of None \<Rightarrow> [] | Some s \<Rightarrow> s)"

text \<open>
  \<open>container.items.query(querySpec).fetchAll()\<close>, with the \<open>WHERE\<close> clause of the query
  as a predicate on documents: the documents that satisfy it, or a failure of the call.
\<close>

definition container_query ::
  "env \<Rightarrow> (TurnoDocument \<Rightarrow> bool) \<Rightarrow> Container \<Rightarrow> (error + TurnoDocument list) \<times> Container" where
  "container_query e wh c =
     (case fault e (calls c) of
        Some msg \<Rightarrow> (Inl (CosmosFailure msg), tick c)
      | None \<Rightarrow> (Inr (filter wh (documents c)), tick c))"

text \<open>The \<open>WHERE\<close> clause that \<open>TurnoRepository.getStats\<close> builds from its bounds.\<close>

definition getStats_where :: "string option \<Rightarrow> string option \<Rightarrow> TurnoDocument \<Rightarrow> bool" where
  "getStats_where from_date to_date d =
     (if truthy_str from_date \<and> truthy_str to_date
      then doc_fecha d \<ge> str_of from_date \<and> doc_fecha d \<le> str_of to_date
      else if truthy_str from_date then doc_fecha d \<ge> str_of from_date
      else if truthy_str to_date then doc_fecha d \<le> str_of to_date
      else True)"

text \<open>The loop of \<open>TurnoRepository.getStats\<close> over the documents fetched.\<close>

fun getStats_loop :: "TurnoDocument list \<Rightarrow> Stats \<Rightarrow> Stats" where
  "getStats_loop [] stats = stats"
| "getStats_loop (turno' # rest) stats =
     getStats_loop rest
       (if doc_esVacaciones turno' then stats\<lparr>vacaciones := vacaciones stats + 1\<rparr>
        else if truthy_str (doc_turno turno')
        then stats\<lparr>porTurno := (porTurno stats)
               (str_of (doc_turno turno') \<mapsto>
                  (case porTurno stats (str_of (doc_turno turno')) of
                     None \<Rightarrow> 0 | Some n \<Rightarrow> n) + 1)\<rparr>
        else stats)"

definition getStats ::
  "env \<Rightarrow> string option \<Rightarrow> string option \<Rightarrow> Container \<Rightarrow> (error + Stats) \<times> Container" where
  "getStats e from_date to_date c =
     (case container_query e (getStats_where from_date to_date) c of
        (Inl err, c') \<Rightarrow> (Inl err, c')
      | (Inr allTurnos, c') \<Rightarrow>
          (Inr (getStats_loop allTurnos
                  \<lparr>total_stats = length allTurnos, porTurno = Map.empty, vacaciones = 0\<rparr>),
           c'))"

text \<open>
  \<open>JsonTurnoRepository.getStats\<close> on the documents \<open>data\<close> loaded from the file: the
  filter of the range and the loop, as that class writes them.
\<close>

fun json_getStats_loop :: "TurnoDocument list \<Rightarrow> Stats \<Rightarrow> Stats" where
  "json_getStats_loop [] stats = stats"
| "json_getStats_loop (turno' # rest) stats =
     json_getStats_loop rest
       (if doc_esVacaciones turno' then stats\<lparr>vacaciones := vacaciones stats + 1\<rparr>
        else if truthy_str (doc_turno turno')
        then stats\<lparr>porTurno := (porTurno stats)
               (str_of (doc_turno turno') \<mapsto>
                  (case porTurno stats (str_of (doc_turno turno')) of
                     None \<Rightarrow> 0 | Some n \<Rightarrow> n) + 1)\<rparr>
        else stats)"

definition json_getStats :: "TurnoDocument list \<Rightarrow> string option \<Rightarrow> string option \<Rightarrow> Stats" where
  "json_getStats data from_date to_date =
     (let filteredData =
            (if truthy_str from_date \<or> truthy_str to_date
             then filter (\<lambda>turno'.
                      if truthy_str from_date \<and> doc_fecha turno' < str_of from_date then False
                      else if truthy_str to_date \<and> doc_fecha turno' > str_of to_date then False
                      else True) data
             else data)
      in json_getStats_loop filteredData
           \<lparr>total_stats = length filteredData, porTurno = Map.empty, vacaciones = 0\<rparr>)"

section \<open>The service: one turno\<close>

text \<open>
  The minutes since midnight that \<open>upsertTurno\<close> computes from a time:
  \<open>split(':').map(Number)\<close>, then hours times 60 plus minutes. \<open>None\<close> is NaN.
\<close>

definition shift_minutes :: "string \<Rightarrow> nat option" where
  "shift_minutes s =
     (case map Number (split_on CHR '':'' s) of
        Some hour # Some minute # _ \<Rightarrow> Some (hour * 60 + minute)
      | _ \<Rightarrow> None)"

text \<open>\<open>startMinutes >= endMinutes && endMinutes !== 0\<close>; a comparison with NaN is false.\<close>

definition time_order_violated :: "string \<Rightarrow> string \<Rightarrow> bool" where
  "time_order_violated s e =
     (case (shift_minutes s, shift_minutes e) of
        (Some startMinutes, Some endMinutes) \<Rightarrow> startMinutes \<ge> endMinutes \<and> endMinutes \<noteq> 0
      | _ \<Rightarrow> False)"

text \<open>The first business rule: on vacation the shift and both times are set to \<open>undefined\<close>.\<close>

definition clear_on_vacation :: "TurnoInsert \<Rightarrow> TurnoInsert" where
  "clear_on_vacation v =
     (if esVacaciones v
      then v\<lparr>turno := Undefined, startShift := Undefined, endShift := Undefined\<rparr>
      else v)"

text \<open>
  The body of \<open>upsertTurno\<close> up to the call of the repository: the schema, the
  normalization of the date, and the business rules in the order of the source. A
  validation error of the schema is thrown again as an error of invalid data.
\<close>

definition upsertTurno_rules :: "LocaleConfig \<Rightarrow> TurnoInsert \<Rightarrow> error + TurnoInsert" where
  "upsertTurno_rules glob data =
     (case turnoInsertSchema_parse data of
        Inl (ZodError issues) \<Rightarrow> Inl (DatosInvalidos issues)
      | Inl err \<Rightarrow> Inl err
      | Inr validatedData \<Rightarrow>
          (case (if fecha validatedData \<noteq> []
                 then normalizeDateInput glob (fecha validatedData) None
                 else Inr (fecha validatedData)) of
             Inl err \<Rightarrow> Inl err
           | Inr f \<Rightarrow>
               (let v = clear_on_vacation (validatedData\<lparr>fecha := f\<rparr>)
                in if truthy (turno v) \<and> esVacaciones v then Inl TurnoYVacaciones
                   else if (truthy (startShift v) \<and> \<not> truthy (endShift v))
                           \<or> (\<not> truthy (startShift v) \<and> truthy (endShift v))
                   then Inl HorasIncompletas
                   else
                     (case (startShift v, endShift v) of
                        (Value s, Value e) \<Rightarrow>
                          if s \<noteq> [] \<and> e \<noteq> [] \<and> time_order_violated s e
                          then Inl HoraInicioPosterior
                          else Inr v
                      | _ \<Rightarrow> Inr v))))"

definition upsertTurno ::
  "LocaleConfig \<Rightarrow> env \<Rightarrow> TurnoInsert \<Rightarrow> Container \<Rightarrow> (error + TurnoDocument option) \<times> Container" where
  "upsertTurno glob e data c =
     (case upsertTurno_rules glob data of
        Inl err \<Rightarrow> (Inl err, c)
      | Inr v \<Rightarrow> upsert e v c)"

section \<open>The service: a spreadsheet\<close>

text \<open>A property written in an object literal: the key is present, with a value or undefined.\<close>

definition literal :: "'a option \<Rightarrow> 'a optional" where
  "literal x = (case x of None \<Rightarrow> Undefined | Some v \<Rightarrow> Value v)"

text \<open>The object \<open>turnoData\<close> that \<open>processExcelData\<close> builds from a validated row.\<close>

definition turnoData_of :: "ValidatedRow \<Rightarrow> TurnoInsert" where
  "turnoData_of validatedRow =
     \<lparr>fecha = v_fecha validatedRow,
      turno = (if v_vacaciones validatedRow then Undefined else literal (v_turno validatedRow)),
      startShift =
        (if v_vacaciones validatedRow then Undefined else literal (v_startshift validatedRow)),
      endShift =
        (if v_vacaciones validatedRow then Undefined else literal (v_endshift validatedRow)),
      esVacaciones = v_vacaciones validatedRow,
      notas = (if v_notas validatedRow \<noteq> [] then v_notas validatedRow else []),
      personaId = Missing\<rparr>"

definition priority_warning :: "nat \<Rightarrow> string" where
  "priority_warning rowNumber =
     ''Fila '' @ toString rowNumber @ '': Se especific'' @ [CHR 0xF3]
     @ '' turno y vacaciones, se priorizar'' @ [CHR 0xE1] @ ''n las vacaciones''"

definition row_error_warning :: "nat \<Rightarrow> error \<Rightarrow> string" where
  "row_error_warning rowNumber err =
     ''Fila '' @ toString rowNumber @ '': Error procesando fila - '' @ message err"

text \<open>
  The first loop of \<open>processExcelData\<close>, from the row of index \<open>i\<close> on, over the
  warnings and the valid rows collected so far.
\<close>

fun process_rows ::
  "nat \<Rightarrow> ExcelRow list \<Rightarrow> string list \<times> TurnoInsert list \<Rightarrow> string list \<times> TurnoInsert list" where
  "process_rows i [] acc = acc"
| "process_rows i (row # rest) (warns, validRows) =
     process_rows (Suc i) rest
       (let rowNumber = i + 2
        in case excelRowSchema_parse row of
             Inr validatedRow \<Rightarrow>
               (warns
                  @ (if v_vacaciones validatedRow
                        \<and> v_turno validatedRow \<noteq> None \<and> v_turno validatedRow \<noteq> Some []
                     then [priority_warning rowNumber] else []),
                validRows @ [turnoData_of validatedRow])
           | Inl err \<Rightarrow> (warns @ [row_error_warning rowNumber err], validRows))"

definition duplicate_warning :: "string \<Rightarrow> string" where
  "duplicate_warning f = ''Fecha duplicada en archivo: '' @ f"

text \<open>
  The second loop, over the set of the dates seen, the unique rows and the warnings.
\<close>

fun dedupe ::
  "TurnoInsert list \<Rightarrow> string set \<times> TurnoInsert list \<times> string list
     \<Rightarrow> string set \<times> TurnoInsert list \<times> string list" where
  "dedupe [] acc = acc"
| "dedupe (row # rest) (fechasVistas, uniqueRows, warns) =
     (if fecha row \<in> fechasVistas
      then dedupe rest (fechasVistas, uniqueRows, warns @ [duplicate_warning (fecha row)])
      else dedupe rest (insert (fecha row) fechasVistas, uniqueRows @ [row], warns))"

text \<open>
  \<open>processExcelData\<close>. The warnings of the result are those of the service: the spread
  \<open>{...result, warnings}\<close> puts them in the place of the repository's. (The model's
  \<open>bulkUpsert\<close> always returns, so the \<open>catch\<close> around it is never entered.)
\<close>

definition processExcelData :: "env \<Rightarrow> ExcelRow list \<Rightarrow> Container \<Rightarrow> BulkResult \<times> Container" where
  "processExcelData e excelData c =
     (case process_rows 0 excelData ([], []) of
        (warnings1, validRows) \<Rightarrow>
          (case dedupe validRows ({}, [], warnings1) of
             (fechasVistas, uniqueRows, warnings2) \<Rightarrow>
               (case bulkUpsert e uniqueRows c of
                  (result, c') \<Rightarrow> (result\<lparr>warnings := warnings2\<rparr>, c'))))"

section \<open>Notions and examples used to state the properties\<close>

text \<open>A property is present when it holds a value.\<close>

definition present :: "'a optional \<Rightarrow> bool" where
  "present p = (case p of Value v \<Rightarrow> True | _ \<Rightarrow> False)"


text \<open>A candidate on vacation that still carries a night shift's times.\<close>

definition vacation_with_times :: TurnoInsert where
  "vacation_with_times =
     \<lparr>fecha = ''2025-01-01'', turno = Missing, startShift = Value ''22:00'',
      endShift = Value ''06:00'', esVacaciones = True, notas = [], personaId = Missing\<rparr>"

text \<open>A working day from \<open>s\<close> to \<open>e\<close>.\<close>

definition working_day :: "string optional \<Rightarrow> string optional \<Rightarrow> TurnoInsert" where
  "working_day s e =
     \<lparr>fecha = ''2025-01-01'', turno = Value ''noche'', startShift = s,
      endShift = e, esVacaciones = False, notas = [], personaId = Missing\<rparr>"

text \<open>The key of a candidate in the container, and the document stored under it.\<close>

definition key_of :: "TurnoInsert \<Rightarrow> string" where
  "key_of data = generateTurnoId (fecha data) (value_of (personaId data))"

definition stored_at :: "Container \<Rightarrow> TurnoInsert \<Rightarrow> TurnoDocument option" where
  "stored_at c data = find (at_key (key_of data) (fecha data)) (documents c)"

text \<open>
  A stored morning shift, the container that holds it, an environment without faults, and
  an input for the same day that carries no shift and no times.
\<close>

definition stored_morning :: TurnoDocument where
  "stored_morning =
     \<lparr>doc_id = ''2025-01-01'', doc_fecha = ''2025-01-01'', doc_turno = Some manana,
      doc_startShift = Some ''07:00'', doc_endShift = Some ''15:00'',
      doc_esVacaciones = False, doc_notas = ''guardia'', doc_personaId = None,
      createdAt = ''2025-01-01T08:00:00.000Z'', updatedAt = ''2025-01-01T08:00:00.000Z''\<rparr>"

definition morning_store :: Container where
  "morning_store = \<lparr>documents = [stored_morning], calls = 0, written = []\<rparr>"

definition quiet_env :: env where
  "quiet_env = \<lparr>fault = (\<lambda>n. None), now = (\<lambda>n. ''2025-02-01T09:00:00.000Z'')\<rparr>"

definition bare_day :: TurnoInsert where
  "bare_day =
     \<lparr>fecha = ''2025-01-01'', turno = Missing, startShift = Missing, endShift = Missing,
      esVacaciones = False, notas = [], personaId = Missing\<rparr>"

text \<open>
  The calls that the loop of \<open>bulkUpsert\<close> makes for one candidate all succeed: the two
  look-ups, then the creation, or the read and the replacement when the key holds a
  document.
\<close>

definition calls_succeed :: "env \<Rightarrow> Container \<Rightarrow> TurnoInsert \<Rightarrow> bool" where
  "calls_succeed e c data =
     (fault e (calls c) = None \<and> fault e (calls c + 1) = None \<and> fault e (calls c + 2) = None
      \<and> (stored_at c data = None \<or> fault e (calls c + 3) = None))"

text \<open>
  What the loop does for one candidate \<open>d\<close>, from the counters \<open>r1\<close> and the container
  \<open>c1\<close> to \<open>r2\<close> and \<open>c2\<close>: counted as updated or inserted with the persisted
  document appended to the items, or counted as skipped with one more warning, which names
  the candidate's date and the failure's message, and the container's documents untouched.
\<close>

definition counted_once ::
  "env \<Rightarrow> TurnoInsert \<Rightarrow> BulkResult \<times> Container \<Rightarrow> BulkResult \<times> Container \<Rightarrow> bool" where
  "counted_once e d rc1 rc2 =
     (case rc1 of
        (r1, c1) \<Rightarrow>
          (case rc2 of
             (r2, c2) \<Rightarrow>
               (if calls_succeed e c1 d
                then (if stored_at c1 d \<noteq> None
                      then updated r2 = updated r1 + 1 \<and> inserted r2 = inserted r1
                      else inserted r2 = inserted r1 + 1 \<and> updated r2 = updated r1)
                     \<and> skipped r2 = skipped r1 \<and> warnings r2 = warnings r1
                     \<and> (\<exists>doc. items r2 = items r1 @ [Some doc] \<and> stored_at c2 d = Some doc
                              \<and> written c2 = written c1 @ [doc])
                else skipped r2 = skipped r1 + 1 \<and> inserted r2 = inserted r1
                     \<and> updated r2 = updated r1 \<and> items r2 = items r1
                     \<and> (\<exists>msg. warnings r2 = warnings r1
                            @ [''Error procesando turno para fecha '' @ fecha d @ '': '' @ msg])
                     \<and> documents c2 = documents c1 \<and> written c2 = written c1)))"

text \<open>
  A batch of three on the container with the stored morning shift: the stored day again,
  a new day, and a day whose first look-up (the store's call number 7) times out.
\<close>

definition day_two :: TurnoInsert where
  "day_two =
     \<lparr>fecha = ''2025-01-02'', turno = Value ''tarde'', startShift = Missing, endShift = Missing,
      esVacaciones = False, notas = [], personaId = Missing\<rparr>"

definition day_three :: TurnoInsert where
  "day_three =
     \<lparr>fecha = ''2025-01-03'', turno = Undefined, startShift = Undefined, endShift = Undefined,
      esVacaciones = True, notas = [], personaId = Missing\<rparr>"

definition flaky_env :: env where
  "flaky_env =
     \<lparr>fault = (\<lambda>n. if n = 7 then Some ''Request timed out'' else None),
      now = (\<lambda>n. ''2025-02-01T09:00:00.000Z'')\<rparr>"

definition batch_of_three :: "TurnoInsert list" where
  "batch_of_three = [bare_day, day_two, day_three]"

text \<open>The rows of the import scenario, and the empty container.\<close>

definition scenario_rows :: "ExcelRow list" where
  "scenario_rows =
     [\<lparr>row_fecha = ''2025-01-01'', row_turno = Some manana, row_startshift = None,
       row_endshift = None, row_vacaciones = CellBoolean False, row_notas = None\<rparr>,
      \<lparr>row_fecha = ''2025-01-01'', row_turno = Some ''tarde'', row_startshift = None,
       row_endshift = None, row_vacaciones = CellBoolean False, row_notas = None\<rparr>,
      \<lparr>row_fecha = ''2025-01-02'', row_turno = None, row_startshift = None,
       row_endshift = None, row_vacaciones = CellBoolean True, row_notas = None\<rparr>]"

definition empty_store :: Container where
  "empty_store = \<lparr>documents = [], calls = 0, written = []\<rparr>"

text \<open>
  In a list of rows in file order, the row of index \<open>i\<close> is the first occurrence of its
  date when no row before it has the same date. The rows kept are the first
  occurrences, in file order; the duplicate warnings name the dates of the other rows, in
  file order.
\<close>

definition first_occurrence :: "TurnoInsert list \<Rightarrow> nat \<Rightarrow> bool" where
  "first_occurrence rows i = (fecha (rows ! i) \<notin> fecha ` set (take i rows))"

definition kept_rows :: "TurnoInsert list \<Rightarrow> TurnoInsert list" where
  "kept_rows rows = map (nth rows) (filter (first_occurrence rows) [0..<length rows])"

definition duplicate_warnings :: "TurnoInsert list \<Rightarrow> string list" where
  "duplicate_warnings rows =
     map (\<lambda>i. duplicate_warning (fecha (rows ! i)))
       (filter (\<lambda>i. \<not> first_occurrence rows i) [0..<length rows])"

text \<open>A stored record has no shift data: its shift and both its times are absent.\<close>

definition shift_absent :: "TurnoDocument \<Rightarrow> bool" where
  "shift_absent doc =
     (doc_turno doc = None \<and> doc_startShift doc = None \<and> doc_endShift doc = None)"

text \<open>
  A candidate on vacation given to the repository has its shift and both its times set to
  undefined (their keys are present).
\<close>

definition vacation_cleared :: "TurnoInsert \<Rightarrow> bool" where
  "vacation_cleared d =
     (if esVacaciones d
      then turno d = Undefined \<and> startShift d = Undefined \<and> endShift d = Undefined
      else True)"

text \<open>A spreadsheet row on vacation that still names a shift and its times.\<close>

definition vacation_row :: ExcelRow where
  "vacation_row =
     \<lparr>row_fecha = ''3/1/2025'', row_turno = Some ''Noche'', row_startshift = Some ''10 pm'',
      row_endshift = Some ''6'', row_vacaciones = CellString (''S'' @ [CHR 0xCD] @ '' ''),
      row_notas = None\<rparr>"

text \<open>The records that the two paths store for the vacation examples.\<close>

definition vacation_2025_01_01 :: TurnoDocument where
  "vacation_2025_01_01 =
     \<lparr>doc_id = ''2025-01-01'', doc_fecha = ''2025-01-01'', doc_turno = None,
      doc_startShift = None, doc_endShift = None, doc_esVacaciones = True, doc_notas = [],
      doc_personaId = None, createdAt = ''2025-01-01T08:00:00.000Z'',
      updatedAt = ''2025-02-01T09:00:00.000Z''\<rparr>"

definition vacation_2025_01_03 :: TurnoDocument where
  "vacation_2025_01_03 =
     \<lparr>doc_id = ''2025-01-03'', doc_fecha = ''2025-01-03'', doc_turno = None,
      doc_startShift = None, doc_endShift = None, doc_esVacaciones = True, doc_notas = [],
      doc_personaId = None, createdAt = ''2025-02-01T09:00:00.000Z'',
      updatedAt = ''2025-02-01T09:00:00.000Z''\<rparr>"

text \<open>
  The inclusive date range of a statistics request: a bound that is given (not undefined,
  not empty) restricts the dates.
\<close>

definition in_range :: "string option \<Rightarrow> string option \<Rightarrow> TurnoDocument \<Rightarrow> bool" where
  "in_range from_date to_date d =
     ((if truthy_str from_date then str_of from_date \<le> doc_fecha d else True)
      \<and> (if truthy_str to_date then doc_fecha d \<le> str_of to_date else True))"




text \<open>A stored day that is neither a vacation nor has a shift type, and its container.\<close>

definition plain_day :: TurnoDocument where
  "plain_day =
     \<lparr>doc_id = ''2025-01-05'', doc_fecha = ''2025-01-05'', doc_turno = None,
      doc_startShift = None, doc_endShift = None, doc_esVacaciones = False, doc_notas = [],
      doc_personaId = None, createdAt = ''2025-01-05T08:00:00.000Z'',
      updatedAt = ''2025-01-05T08:00:00.000Z''\<rparr>"


text \<open>A container with a morning shift, a vacation and a day without a shift type.\<close>

definition mixed_store :: Container where
  "mixed_store =
     \<lparr>documents = [stored_morning, vacation_2025_01_03, plain_day], calls = 0, written = []\<rparr>"


text \<open>A stored record that is flagged as vacation and still names a shift.\<close>

definition vacation_with_shift :: TurnoDocument where
  "vacation_with_shift =
     \<lparr>doc_id = ''2025-01-06'', doc_fecha = ''2025-01-06'', doc_turno = Some ''noche'',
      doc_startShift = None, doc_endShift = None, doc_esVacaciones = True, doc_notas = [],
      doc_personaId = None, createdAt = ''2025-01-06T08:00:00.000Z'',
      updatedAt = ''2025-01-06T08:00:00.000Z''\<rparr>"

section \<open>Clock times of a spreadsheet row\<close>

text \<open>
  Claim C8. The time normalization of a spreadsheet row maps \<open>7\<close> to \<open>07:00\<close>,
  \<open>7:30 pm\<close> to \<open>19:30\<close> and \<open>12 am\<close> to \<open>00:00\<close>, and fails on \<open>25:00\<close> with the
  invalid-time error; the end-shift column is normalized by the same mapping as the
  start-shift column, on every input.
\<close>

theorem excel_time_normalization:
  "startshift (Some ''7'') = Inr (Some ''07:00'')
   \<and> startshift (Some ''7:30 pm'') = Inr (Some ''19:30'')
   \<and> startshift (Some ''12 am'') = Inr (Some ''00:00'')
   \<and> startshift (Some ''25:00'') = Inl (InvalidTimeFormat ''25:00'')
   \<and> (\<forall>val. endshift val = startshift val)"
proof -
  have a: "startshift (Some ''7'') = Inr (Some ''07:00'')"
    by code_simp
  have b: "startshift (Some ''7:30 pm'') = Inr (Some ''19:30'')"
    by code_simp
  have c: "startshift (Some ''12 am'') = Inr (Some ''00:00'')"
    by code_simp
  have d: "startshift (Some ''25:00'') = Inl (InvalidTimeFormat ''25:00'')"
    by code_simp
  have e: "\<forall>val. endshift val = startshift val"
    by (simp add: endshift_def startshift_def)
  from a b c d e show ?thesis by blast
qed

section \<open>Normalization of dates\<close>

lemma normalize_short_example:
  assumes "\<not> startsWith (locale_name (case cfg of Some c \<Rightarrow> c | None \<Rightarrow> glob)) ''en-US''"
  shows "normalizeDateInput glob ''15/1/2025'' cfg = Inr ''2025-01-15''"
proof -
  have iso: "\<not> iso_date_regex ''15/1/2025''"
    by (simp add: iso_date_regex_def)
  have short: "short_date_regex ''15/1/2025''"
    by (simp add: short_date_regex_def all_digits_def is_digit_def)
  have parts: "Number ''15'' = Some 15" "Number ''1'' = Some 1" "Number ''2025'' = Some 2025"
    by (simp_all add: Number_def all_digits_def is_digit_def parseInt_def digit_val_def)
  have day: "Date_ymd 2025 0 15 = 20103"
    by (simp add: Date_ymd_def days_from_civil_def Let_def)
  have civ: "civil_from_days 20103 = (2025, 1, 15)"
    by code_simp
  have str: "padStart0 4 (int_toString 2025) @ ''-'' @ padStart0 2 (int_toString 1)
      @ ''-'' @ padStart0 2 (int_toString 15) = ''2025-01-15''"
    by code_simp
  have fmt: "formatISO \<lparr>date = Some 20103, config = c\<rparr> = ''2025-01-15''" for c
    using str by (simp add: formatISO_def civ)
  show ?thesis
    using assms
    by (simp add: normalizeDateInput_def iso short fromShort_def parts day fmt Let_def)
qed

text \<open>
  Claim C7. A string already in the canonical form YYYY-MM-DD is returned unchanged;
  under a locale that is not en-US (day first), \<open>15/1/2025\<close> is normalized to
  \<open>2025-01-15\<close>; a string that matches neither the canonical nor the short pattern
  fails with the invalid-date-format error.
\<close>

theorem normalizeDateInput_round_trip:
  "(iso_date_regex input \<longrightarrow> normalizeDateInput glob input cfg = Inr input)
   \<and> (\<not> startsWith (locale_name (case cfg of Some c \<Rightarrow> c | None \<Rightarrow> glob)) ''en-US''
        \<longrightarrow> normalizeDateInput glob ''15/1/2025'' cfg = Inr ''2025-01-15'')
   \<and> (\<not> iso_date_regex input \<and> \<not> short_date_regex input
        \<longrightarrow> normalizeDateInput glob input cfg = Inl (FormatoFechaNoValido input))"
proof (intro conjI impI)
  assume "iso_date_regex input"
  then show "normalizeDateInput glob input cfg = Inr input"
    by (simp add: normalizeDateInput_def)
next
  assume "\<not> startsWith (locale_name (case cfg of Some c \<Rightarrow> c | None \<Rightarrow> glob)) ''en-US''"
  then show "normalizeDateInput glob ''15/1/2025'' cfg = Inr ''2025-01-15''"
    by (rule normalize_short_example)
next
  assume "\<not> iso_date_regex input \<and> \<not> short_date_regex input"
  then show "normalizeDateInput glob input cfg = Inl (FormatoFechaNoValido input)"
    by (simp add: normalizeDateInput_def)
qed

theorem normalizeDateInput_round_trip_witness:
  "normalizeDateInput detectServerLocale ''2025-01-15'' None = Inr ''2025-01-15''
   \<and> normalizeDateInput detectServerLocale ''15/1/2025'' None = Inr ''2025-01-15''
   \<and> normalizeDateInput detectServerLocale ''15.1.2025'' None
       = Inl (FormatoFechaNoValido ''15.1.2025'')"
proof -
  have iso: "iso_date_regex ''2025-01-15''"
    by (simp add: iso_date_regex_def all_digits_def is_digit_def)
  have loc: "\<not> startsWith (locale_name (case None of Some c \<Rightarrow> c | None \<Rightarrow> detectServerLocale)) ''en-US''"
    by (simp add: startsWith_def detectServerLocale_def)
  have niso: "\<not> iso_date_regex ''15.1.2025''"
    by (simp add: iso_date_regex_def)
  have nshort: "\<not> short_date_regex ''15.1.2025''"
    by (simp add: short_date_regex_def)
  show ?thesis
    using normalizeDateInput_round_trip [of "''2025-01-15''" detectServerLocale None] iso
      normalizeDateInput_round_trip [of "''15.1.2025''" detectServerLocale None] loc niso nshort
    by simp
qed

section \<open>Facts about times in the canonical form\<close>

lemma is_digit_cases:
  "is_digit c \<longleftrightarrow> c = CHR ''0'' \<or> c = CHR ''1'' \<or> c = CHR ''2'' \<or> c = CHR ''3'' \<or> c = CHR ''4''
     \<or> c = CHR ''5'' \<or> c = CHR ''6'' \<or> c = CHR ''7'' \<or> c = CHR ''8'' \<or> c = CHR ''9''"
  by (auto simp: is_digit_def)


lemma digit_val_le: "is_digit c \<Longrightarrow> digit_val c \<le> 9"
  by (auto simp: is_digit_cases digit_val_def)



lemma hhmm_regex_nonempty: "hhmm_regex s \<Longrightarrow> s \<noteq> []"
  by (auto simp: hhmm_regex_def)




section \<open>Facts about a candidate that passes the schema\<close>

lemma parse_ok_iff:
  "turnoInsertSchema_parse data = Inr data \<longleftrightarrow> turnoInsertSchema_issues data = []"
  by (simp add: turnoInsertSchema_parse_def)

lemma parse_ok_fecha:
  "turnoInsertSchema_issues data = [] \<Longrightarrow> iso_date_regex (fecha data)"
  by (auto simp: turnoInsertSchema_issues_def split: if_splits)

lemma parse_ok_start:
  "turnoInsertSchema_issues data = [] \<Longrightarrow> startShift data = Value s \<Longrightarrow> hhmm_regex s"
  by (auto simp: turnoInsertSchema_issues_def split: if_splits)

lemma parse_ok_end:
  "turnoInsertSchema_issues data = [] \<Longrightarrow> endShift data = Value s \<Longrightarrow> hhmm_regex s"
  by (auto simp: turnoInsertSchema_issues_def split: if_splits)

lemma truthy_start:
  "turnoInsertSchema_issues data = [] \<Longrightarrow> truthy (startShift data) = present (startShift data)"
  by (cases "startShift data")
     (auto simp: truthy_def present_def dest: parse_ok_start hhmm_regex_nonempty)

lemma truthy_end:
  "turnoInsertSchema_issues data = [] \<Longrightarrow> truthy (endShift data) = present (endShift data)"
  by (cases "endShift data")
     (auto simp: truthy_def present_def dest: parse_ok_end hhmm_regex_nonempty)

lemma iso_date_nonempty: "iso_date_regex s \<Longrightarrow> s \<noteq> []"
  by (auto simp: iso_date_regex_def)

text \<open>
  After the schema, the rules see the candidate with the vacation clear applied; the
  date is already canonical and stays as it is.
\<close>

lemma upsertTurno_rules_valid:
  assumes "turnoInsertSchema_issues data = []"
  shows "upsertTurno_rules glob data =
     (let v = clear_on_vacation data
      in if (present (startShift v) \<and> \<not> present (endShift v))
            \<or> (\<not> present (startShift v) \<and> present (endShift v))
         then Inl HorasIncompletas
         else (case (startShift v, endShift v) of
                 (Value s, Value e) \<Rightarrow>
                   if time_order_violated s e then Inl HoraInicioPosterior else Inr v
               | _ \<Rightarrow> Inr v))"
proof -
  have iso: "iso_date_regex (fecha data)"
    using assms by (rule parse_ok_fecha)
  have ne: "fecha data \<noteq> []"
    using iso by (rule iso_date_nonempty)
  have norm: "normalizeDateInput glob (fecha data) None = Inr (fecha data)"
    using iso by (simp add: normalizeDateInput_def)
  show ?thesis
  proof (cases "esVacaciones data")
    case True
    then show ?thesis
      using assms
      by (simp add: upsertTurno_rules_def turnoInsertSchema_parse_def ne norm
          clear_on_vacation_def truthy_def present_def)
  next
    case False
    have ts: "truthy (startShift data) = present (startShift data)"
      using assms by (rule truthy_start)
    have te: "truthy (endShift data) = present (endShift data)"
      using assms by (rule truthy_end)
    have nes: "startShift data = Value s \<Longrightarrow> s \<noteq> []" for s
      using assms by (auto dest: parse_ok_start hhmm_regex_nonempty)
    have nee: "endShift data = Value s \<Longrightarrow> s \<noteq> []" for s
      using assms by (auto dest: parse_ok_end hhmm_regex_nonempty)
    from False show ?thesis
      using assms nes nee
      by (cases "startShift data"; cases "endShift data")
         (simp_all add: upsertTurno_rules_def turnoInsertSchema_parse_def ne norm
            clear_on_vacation_def ts te present_def truthy_def)
  qed
qed


section \<open>The pairing of the times\<close>

text \<open>
  Claim C9. For every candidate that passes the schema, validation fails with the
  incomplete-time-range error if and only if, after the vacation clear, exactly one of the
  start and end times is present; with both present or both absent this check passes.
\<close>

theorem incomplete_time_range_iff:
  assumes "turnoInsertSchema_parse data = Inr data"
  shows "upsertTurno_rules glob data = Inl HorasIncompletas
     \<longleftrightarrow> present (startShift (clear_on_vacation data))
          \<noteq> present (endShift (clear_on_vacation data))"
proof -
  from assms have ok: "turnoInsertSchema_issues data = []"
    by (simp add: parse_ok_iff)
  show ?thesis
    unfolding upsertTurno_rules_valid [OF ok] Let_def
    by (cases "startShift (clear_on_vacation data)"; cases "endShift (clear_on_vacation data)")
       (simp_all add: present_def)
qed

theorem incomplete_time_range_iff_witness:
  "upsertTurno_rules detectServerLocale (working_day (Value ''07:00'') Missing)
     = Inl HorasIncompletas
   \<and> upsertTurno_rules detectServerLocale (working_day Undefined (Value ''15:00''))
     = Inl HorasIncompletas
   \<and> upsertTurno_rules detectServerLocale (working_day (Value ''07:00'') (Value ''15:00''))
     \<noteq> Inl HorasIncompletas
   \<and> upsertTurno_rules detectServerLocale (working_day Missing Missing)
     \<noteq> Inl HorasIncompletas
   \<and> upsertTurno_rules detectServerLocale vacation_with_times \<noteq> Inl HorasIncompletas"
proof -
  have ok: "turnoInsertSchema_parse (working_day (Value ''07:00'') Missing)
        = Inr (working_day (Value ''07:00'') Missing)"
      "turnoInsertSchema_parse (working_day Undefined (Value ''15:00''))
        = Inr (working_day Undefined (Value ''15:00''))"
      "turnoInsertSchema_parse (working_day (Value ''07:00'') (Value ''15:00''))
        = Inr (working_day (Value ''07:00'') (Value ''15:00''))"
      "turnoInsertSchema_parse (working_day Missing Missing) = Inr (working_day Missing Missing)"
      "turnoInsertSchema_parse vacation_with_times = Inr vacation_with_times"
    by (simp_all add: turnoInsertSchema_parse_def turnoInsertSchema_issues_def working_day_def
        vacation_with_times_def iso_date_regex_def all_digits_def is_digit_def hhmm_regex_def)
  show ?thesis
    using incomplete_time_range_iff [OF ok(1), of detectServerLocale]
      incomplete_time_range_iff [OF ok(2), of detectServerLocale]
      incomplete_time_range_iff [OF ok(3), of detectServerLocale]
      incomplete_time_range_iff [OF ok(4), of detectServerLocale]
      incomplete_time_range_iff [OF ok(5), of detectServerLocale]
    by (simp add: clear_on_vacation_def working_day_def vacation_with_times_def present_def)
qed

section \<open>The order of the times\<close>





section \<open>Closed forms of the repository's operations\<close>

lemma find_at_key_Some:
  "find (at_key i pk) xs = Some d \<Longrightarrow> doc_id d = i \<and> doc_fecha d = pk"
  by (auto simp: find_Some_iff at_key_def)

lemma find_replaced:
  assumes "find (at_key i pk) xs \<noteq> None" and "at_key i pk d"
  shows "find (at_key i pk) (map (replace_at i pk d) xs) = Some d"
  using assms by (induction xs) (auto simp: replace_at_def)

lemma find_appended:
  assumes "find P xs = None" and "P d"
  shows "find P (xs @ [d]) = Some d"
  using assms by (induction xs) (auto split: if_splits)

lemma partition_key_of_id:
  "(if f \<noteq> [] then f else hd (split_on CHR ''_'' (generateTurnoId f p))) = f"
  by (cases p) (auto simp: generateTurnoId_def)

lemma findByFecha_closed:
  "findByFecha e f p c =
     (case fault e (calls c) of
        Some msg \<Rightarrow> (Inl (CosmosFailure msg), tick c)
      | None \<Rightarrow> (Inr (find (at_key (generateTurnoId f p) f) (documents c)), tick c))"
  by (simp add: findByFecha_def findById_def container_read_def split: option.splits)

lemma create_closed:
  "create e data c =
     (case fault e (calls c) of
        Some msg \<Rightarrow> (Inl (CosmosFailure msg), tick c)
      | None \<Rightarrow>
          if stored_at c data \<noteq> None then (Inl (YaExisteTurno (fecha data)), tick c)
          else (Inr (createTurnoDocument (now e (calls c)) data),
                tick (c\<lparr>documents := documents c @ [createTurnoDocument (now e (calls c)) data],
                         written := written c @ [createTurnoDocument (now e (calls c)) data]\<rparr>)))"
  by (simp add: create_def container_create_def stored_at_def key_of_def createTurnoDocument_def
      split: option.splits)

lemma update_closed:
  assumes "stored_at c data = Some existing"
  shows "update e (key_of data) data c =
     (case fault e (calls c) of
        Some msg \<Rightarrow> (Inl (CosmosFailure msg), tick c)
      | None \<Rightarrow>
          (case fault e (Suc (calls c)) of
             Some msg \<Rightarrow> (Inl (CosmosFailure msg), tick (tick c))
           | None \<Rightarrow>
               (Inr (Some (updatedDocument existing data (now e (Suc (calls c))))),
                tick ((tick c)\<lparr>documents :=
                          map (replace_at (key_of data) (fecha data)
                                 (updatedDocument existing data (now e (Suc (calls c)))))
                              (documents c),
                        written := written c
                          @ [updatedDocument existing data (now e (Suc (calls c)))]\<rparr>))))"
proof -
  have pk: "(if fecha data \<noteq> [] then fecha data else hd (split_on CHR ''_'' (key_of data)))
      = fecha data"
    unfolding key_of_def by (rule partition_key_of_id)
  have fd: "doc_fecha (updatedDocument existing data t) = fecha data" for t
    by (simp add: updatedDocument_def)
  show ?thesis
    using assms
    by (simp add: update_def pk container_read_def container_replace_def stored_at_def fd
        tick_def Let_def split: option.splits)
qed


lemma stored_at_tick [simp]: "stored_at (tick c) data = stored_at c data"
  by (simp add: stored_at_def tick_def)

lemma calls_tick [simp]: "calls (tick c) = Suc (calls c)"
  by (simp add: tick_def)

lemma documents_tick [simp]: "documents (tick c) = documents c"
  by (simp add: tick_def)

lemma written_tick [simp]: "written (tick c) = written c"
  by (simp add: tick_def)

lemma upsert_closed:
  "upsert e data c =
     (case fault e (calls c) of
        Some msg \<Rightarrow> (Inl (CosmosFailure msg), tick c)
      | None \<Rightarrow>
          (case stored_at c data of
             None \<Rightarrow>
               (case create e data (tick c) of
                  (Inl err, c'') \<Rightarrow> (Inl err, c'')
                | (Inr d, c'') \<Rightarrow> (Inr (Some d), c''))
           | Some existing \<Rightarrow> update e (key_of data) data (tick c)))"
proof (cases "fault e (calls c)")
  case (Some msg)
  then show ?thesis
    by (simp add: upsert_def findByFecha_closed)
next
  case None
  show ?thesis
  proof (cases "stored_at c data")
    case no: None
    with None show ?thesis
      by (simp add: upsert_def findByFecha_closed stored_at_def key_of_def)
  next
    case (Some existing)
    then have "doc_id existing = key_of data"
      unfolding stored_at_def by (auto dest: find_at_key_Some)
    with None Some show ?thesis
      by (simp add: upsert_def findByFecha_closed stored_at_def key_of_def)
  qed
qed

text \<open>An upsert for a key that holds a document, when the three calls to the store succeed.\<close>

lemma upsert_existing:
  assumes "stored_at c data = Some old"
    and "fault e (calls c) = None"
    and "fault e (calls c + 1) = None"
    and "fault e (calls c + 2) = None"
  shows "\<exists>c'. upsert e data c = (Inr (Some (updatedDocument old data (now e (calls c + 2)))), c')
           \<and> stored_at c' data = Some (updatedDocument old data (now e (calls c + 2)))
           \<and> written c' = written c @ [updatedDocument old data (now e (calls c + 2))]
           \<and> calls c' = calls c + 3"
proof -
  let ?new = "updatedDocument old data (now e (calls c + 2))"
  have st: "stored_at (tick c) data = Some old"
    using assms(1) by simp
  have key: "at_key (key_of data) (fecha data) ?new"
    using assms(1) unfolding stored_at_def
    by (auto dest: find_at_key_Some simp: at_key_def updatedDocument_def)
  have ne: "find (at_key (key_of data) (fecha data)) (documents c) \<noteq> None"
    using assms(1) by (simp add: stored_at_def)
  have found: "find (at_key (key_of data) (fecha data))
      (map (replace_at (key_of data) (fecha data) ?new) (documents c))
      = Some ?new"
    using ne key by (rule find_replaced)
  show ?thesis
    using assms found
    by (simp add: upsert_closed update_closed [OF st] stored_at_def)
qed

section \<open>An upsert on a key that holds a record\<close>

text \<open>
  Claim C1, as the source has it. For every key that already holds a record, an upsert
  for that key whose calls to the store succeed lays the supplied fields over the stored
  record: the date, the vacation flag and the notes are replaced; an optional field (shift,
  start and end time, person) is replaced when its key is present in the input, removed
  when its key is present with the value undefined, and retained from the old record when
  its key is missing. The identifier and \<open>createdAt\<close> are preserved, \<open>updatedAt\<close>
  is the time of the mutation, and the result is the record stored under the key.
\<close>

theorem upsert_existing_overlays:
  assumes "stored_at c data = Some old"
    and "fault e (calls c) = None"
    and "fault e (calls c + 1) = None"
    and "fault e (calls c + 2) = None"
  shows "\<exists>new c'. upsert e data c = (Inr (Some new), c')
     \<and> stored_at c' data = Some new
     \<and> doc_id new = doc_id old
     \<and> createdAt new = createdAt old
     \<and> updatedAt new = now e (calls c + 2)
     \<and> doc_fecha new = fecha data
     \<and> doc_esVacaciones new = esVacaciones data
     \<and> doc_notas new = notas data
     \<and> doc_turno new =
         (case turno data of Missing \<Rightarrow> doc_turno old | Undefined \<Rightarrow> None | Value v \<Rightarrow> Some v)
     \<and> doc_startShift new =
         (case startShift data of
            Missing \<Rightarrow> doc_startShift old | Undefined \<Rightarrow> None | Value v \<Rightarrow> Some v)
     \<and> doc_endShift new =
         (case endShift data of
            Missing \<Rightarrow> doc_endShift old | Undefined \<Rightarrow> None | Value v \<Rightarrow> Some v)
     \<and> doc_personaId new =
         (case personaId data of
            Missing \<Rightarrow> doc_personaId old | Undefined \<Rightarrow> None | Value v \<Rightarrow> Some v)"
proof -
  from upsert_existing [OF assms] obtain c' where
    "upsert e data c = (Inr (Some (updatedDocument old data (now e (calls c + 2)))), c')"
    and "stored_at c' data = Some (updatedDocument old data (now e (calls c + 2)))"
    by blast
  then show ?thesis
    by (intro exI [of _ "updatedDocument old data (now e (calls c + 2))"] exI [of _ c'])
       (simp add: updatedDocument_def overlay_def)
qed

lemma morning_store_bare_day: "stored_at morning_store bare_day = Some stored_morning"
  by (simp add: stored_at_def morning_store_def bare_day_def stored_morning_def key_of_def
      generateTurnoId_def value_of_def at_key_def)

theorem upsert_existing_overlays_witness:
  "\<exists>new c'. upsert quiet_env bare_day morning_store = (Inr (Some new), c')
     \<and> stored_at c' bare_day = Some new
     \<and> createdAt new = ''2025-01-01T08:00:00.000Z''
     \<and> updatedAt new = ''2025-02-01T09:00:00.000Z''
     \<and> doc_notas new = []
     \<and> doc_turno new = Some manana
     \<and> doc_startShift new = Some ''07:00''
     \<and> doc_endShift new = Some ''15:00''"
proof -
  have f: "fault quiet_env n = None" for n
    by (simp add: quiet_env_def)
  from upsert_existing_overlays [OF morning_store_bare_day f f f]
  obtain new c' where "upsert quiet_env bare_day morning_store = (Inr (Some new), c')"
    and "stored_at c' bare_day = Some new"
    and "createdAt new = createdAt stored_morning"
    and "updatedAt new = now quiet_env (calls morning_store + 2)"
    and "doc_notas new = notas bare_day"
    and "doc_turno new =
         (case turno bare_day of
            Missing \<Rightarrow> doc_turno stored_morning | Undefined \<Rightarrow> None | Value v \<Rightarrow> Some v)"
    and "doc_startShift new =
         (case startShift bare_day of
            Missing \<Rightarrow> doc_startShift stored_morning | Undefined \<Rightarrow> None | Value v \<Rightarrow> Some v)"
    and "doc_endShift new =
         (case endShift bare_day of
            Missing \<Rightarrow> doc_endShift stored_morning | Undefined \<Rightarrow> None | Value v \<Rightarrow> Some v)"
    by blast
  then show ?thesis
    by (intro exI [of _ new] exI [of _ c'])
       (simp add: stored_morning_def bare_day_def quiet_env_def)
qed

text \<open>
  The claim as it is written fails: the input \<open>bare_day\<close> carries no shift and no times
  (their keys are missing), it passes the service's validation unchanged, and the record
  stored after the upsert still has the old shift and the old times.
\<close>

theorem upsert_full_replace_counterexample:
  "stored_at morning_store bare_day = Some stored_morning
   \<and> turno bare_day = Missing \<and> startShift bare_day = Missing \<and> endShift bare_day = Missing
   \<and> upsertTurno_rules detectServerLocale bare_day = Inr bare_day
   \<and> fst (upsertTurno detectServerLocale quiet_env bare_day morning_store)
       = Inr (Some (stored_morning\<lparr>doc_notas := [], updatedAt := ''2025-02-01T09:00:00.000Z''\<rparr>))
   \<and> stored_at (snd (upsertTurno detectServerLocale quiet_env bare_day morning_store)) bare_day
       = Some (stored_morning\<lparr>doc_notas := [], updatedAt := ''2025-02-01T09:00:00.000Z''\<rparr>)
   \<and> doc_turno stored_morning = Some manana
   \<and> doc_startShift stored_morning = Some ''07:00''
   \<and> doc_endShift stored_morning = Some ''15:00''"
proof -
  have ok: "turnoInsertSchema_issues bare_day = []"
    by (simp add: turnoInsertSchema_issues_def bare_day_def iso_date_regex_def
        all_digits_def is_digit_def)
  have rules: "upsertTurno_rules detectServerLocale bare_day = Inr bare_day"
    unfolding upsertTurno_rules_valid [OF ok] Let_def
    by (simp add: clear_on_vacation_def bare_day_def present_def)
  have f: "fault quiet_env n = None" for n
    by (simp add: quiet_env_def)
  from upsert_existing [OF morning_store_bare_day f f f]
  obtain c' where
    u: "upsert quiet_env bare_day morning_store
        = (Inr (Some (updatedDocument stored_morning bare_day
                        (now quiet_env (calls morning_store + 2)))), c')"
    and s: "stored_at c' bare_day
        = Some (updatedDocument stored_morning bare_day (now quiet_env (calls morning_store + 2)))"
    by blast
  have new: "updatedDocument stored_morning bare_day (now quiet_env n)
      = stored_morning\<lparr>doc_notas := [], updatedAt := ''2025-02-01T09:00:00.000Z''\<rparr>" for n
    by (simp add: updatedDocument_def stored_morning_def bare_day_def quiet_env_def overlay_def)
  have up: "upsertTurno detectServerLocale quiet_env bare_day morning_store
      = upsert quiet_env bare_day morning_store"
    by (simp add: upsertTurno_def rules)
  have c1: "turno bare_day = Missing \<and> startShift bare_day = Missing \<and> endShift bare_day = Missing"
    by (simp add: bare_day_def)
  have c2: "fst (upsertTurno detectServerLocale quiet_env bare_day morning_store)
      = Inr (Some (stored_morning\<lparr>doc_notas := [], updatedAt := ''2025-02-01T09:00:00.000Z''\<rparr>))"
    using u by (simp add: up new)
  have c3: "stored_at (snd (upsertTurno detectServerLocale quiet_env bare_day morning_store)) bare_day
      = Some (stored_morning\<lparr>doc_notas := [], updatedAt := ''2025-02-01T09:00:00.000Z''\<rparr>)"
    using u s by (simp add: up new)
  have c4: "doc_turno stored_morning = Some manana
      \<and> doc_startShift stored_morning = Some ''07:00''
      \<and> doc_endShift stored_morning = Some ''15:00''"
    by (simp add: stored_morning_def)
  show ?thesis
    using morning_store_bare_day rules c1 c2 c3 c4 by blast
qed


section \<open>One candidate of a batch\<close>

lemma create_fresh:
  assumes "stored_at c data = None" and "fault e (calls c) = None"
  shows "create e data c =
     (Inr (createTurnoDocument (now e (calls c)) data),
      tick (c\<lparr>documents := documents c @ [createTurnoDocument (now e (calls c)) data],
               written := written c @ [createTurnoDocument (now e (calls c)) data]\<rparr>))"
  using assms by (simp add: create_closed)

lemma created_at_key:
  "at_key (key_of data) (fecha data) (createTurnoDocument t data)"
  by (simp add: at_key_def createTurnoDocument_def key_of_def)

text \<open>An upsert for a key that holds no document, when the two calls succeed.\<close>

lemma upsert_fresh:
  assumes "stored_at c data = None"
    and "fault e (calls c) = None"
    and "fault e (calls c + 1) = None"
  shows "\<exists>c'. upsert e data c = (Inr (Some (createTurnoDocument (now e (calls c + 1)) data)), c')
           \<and> stored_at c' data = Some (createTurnoDocument (now e (calls c + 1)) data)
           \<and> written c' = written c @ [createTurnoDocument (now e (calls c + 1)) data]
           \<and> calls c' = calls c + 2"
proof -
  have st: "stored_at (tick c) data = None"
    using assms(1) by simp
  have f: "fault e (calls (tick c)) = None"
    using assms(3) by simp
  have "find (at_key (key_of data) (fecha data)) (documents c) = None"
    using assms(1) by (simp add: stored_at_def)
  then have found: "find (at_key (key_of data) (fecha data))
      (documents c @ [createTurnoDocument (now e (calls c + 1)) data])
      = Some (createTurnoDocument (now e (calls c + 1)) data)"
    using created_at_key by (rule find_appended)
  show ?thesis
    using assms found
    by (simp add: upsert_closed create_fresh [OF st f] stored_at_def)
qed

text \<open>A failed call leaves the documents and the log as they were.\<close>

lemma upsert_failure:
  assumes "upsert e data c = (Inl err, c')"
  shows "(\<exists>msg. err = CosmosFailure msg) \<and> documents c' = documents c \<and> written c' = written c
     \<and> (fault e (calls c) \<noteq> None \<or> fault e (calls c + 1) \<noteq> None
         \<or> (stored_at c data \<noteq> None \<and> fault e (calls c + 2) \<noteq> None))"
proof (cases "stored_at c data")
  case None
  then have st: "stored_at (tick c) data = None" by simp
  from assms None show ?thesis
    by (auto simp: upsert_closed create_closed st split: option.splits if_splits)
next
  case (Some existing)
  then have st: "stored_at (tick c) data = Some existing" by simp
  from assms Some show ?thesis
    by (auto simp: upsert_closed update_closed [OF st] split: option.splits)
qed

lemma calls_succeed_iff:
  "calls_succeed e c d \<longleftrightarrow>
     fault e (calls c) = None \<and> fault e (Suc (calls c)) = None
     \<and> fault e (Suc (Suc (calls c))) = None
     \<and> (stored_at c d = None \<or> fault e (Suc (Suc (Suc (calls c)))) = None)"
  by (simp add: calls_succeed_def eval_nat_numeral)

lemma bulkUpsert_step_counted:
  "counted_once e d (r, c) (bulkUpsert_step e d (r, c))"
proof (cases "fault e (calls c)")
  case (Some msg)
  then show ?thesis
    by (simp add: counted_once_def calls_succeed_iff bulkUpsert_step_def findByFecha_closed
        bulk_skip_def)
next
  case f0: None
  have look: "findByFecha e (fecha d) (value_of (personaId d)) c = (Inr (stored_at c d), tick c)"
    using f0 by (simp add: findByFecha_closed stored_at_def key_of_def)
  show ?thesis
  proof (cases "calls_succeed e c d")
    case True
    show ?thesis
    proof (cases "stored_at c d")
      case None
      then have st: "stored_at (tick c) d = None" by simp
      from True have "fault e (calls (tick c)) = None" "fault e (calls (tick c) + 1) = None"
        by (simp_all add: calls_succeed_iff)
      from upsert_fresh [OF st this] obtain c' where
        "upsert e d (tick c) = (Inr (Some (createTurnoDocument (now e (calls (tick c) + 1)) d)), c')"
        and "stored_at c' d = Some (createTurnoDocument (now e (calls (tick c) + 1)) d)"
        and "written c' = written (tick c) @ [createTurnoDocument (now e (calls (tick c) + 1)) d]"
        by blast
      with True None show ?thesis
        by (simp add: counted_once_def bulkUpsert_step_def look)
    next
      case (Some old)
      then have st: "stored_at (tick c) d = Some old" by simp
      from True Some have "fault e (calls (tick c)) = None" "fault e (calls (tick c) + 1) = None"
        "fault e (calls (tick c) + 2) = None"
        by (simp_all add: calls_succeed_iff)
      from upsert_existing [OF st this] obtain c' where
        "upsert e d (tick c) = (Inr (Some (updatedDocument old d (now e (calls (tick c) + 2)))), c')"
        and "stored_at c' d = Some (updatedDocument old d (now e (calls (tick c) + 2)))"
        and "written c' = written (tick c) @ [updatedDocument old d (now e (calls (tick c) + 2))]"
        by blast
      with True Some show ?thesis
        by (simp add: counted_once_def bulkUpsert_step_def look)
    qed
  next
    case False
    obtain res c' where u: "upsert e d (tick c) = (res, c')"
      by (cases "upsert e d (tick c)")
    have "\<exists>err. res = Inl err"
    proof (cases "stored_at c d")
      case None
      then have st: "stored_at (tick c) d = None" by simp
      from False f0 None have "fault e (Suc (calls c)) \<noteq> None \<or> fault e (Suc (Suc (calls c))) \<noteq> None"
        by (auto simp: calls_succeed_iff)
      with u None show ?thesis
        by (auto simp: upsert_closed create_closed st split: option.splits)
    next
      case (Some old)
      then have st: "stored_at (tick (tick c)) d = Some old" by simp
      from False f0 Some have "fault e (Suc (calls c)) \<noteq> None \<or> fault e (Suc (Suc (calls c))) \<noteq> None
          \<or> fault e (Suc (Suc (Suc (calls c)))) \<noteq> None"
        by (auto simp: calls_succeed_iff)
      with u Some show ?thesis
        by (auto simp: upsert_closed update_closed [OF st] split: option.splits)
    qed
    then obtain err where res: "res = Inl err" by blast
    from upsert_failure [OF u [unfolded res]]
    obtain msg where "err = CosmosFailure msg" "documents c' = documents c"
      "written c' = written c"
      by auto
    with False u res show ?thesis
      by (simp add: counted_once_def bulkUpsert_step_def look bulk_skip_def)
  qed
qed


section \<open>The accounting of a batch\<close>

lemma bulkUpsert_loop_append:
  "bulkUpsert_loop e (xs @ ys) rc = bulkUpsert_loop e ys (bulkUpsert_loop e xs rc)"
  by (induction xs arbitrary: rc) simp_all

lemma counted_once_totals:
  assumes "counted_once e d (r, c) (r1, c1)"
  shows "inserted r1 + updated r1 + skipped r1 = inserted r + updated r + skipped r + 1
     \<and> length (warnings r1) + skipped r = length (warnings r) + skipped r1
     \<and> (\<exists>ws. written c1 = written c @ ws \<and> items r1 = items r @ map Some ws)"
  using assms by (auto simp: counted_once_def split: if_splits)

lemma bulkUpsert_loop_totals:
  assumes "bulkUpsert_loop e ds (r, c) = (r', c')"
  shows "inserted r' + updated r' + skipped r' = inserted r + updated r + skipped r + length ds
     \<and> length (warnings r') + skipped r = length (warnings r) + skipped r'
     \<and> (\<exists>ws. written c' = written c @ ws \<and> items r' = items r @ map Some ws)"
  using assms
proof (induction ds arbitrary: r c)
  case Nil
  then show ?case by simp
next
  case (Cons d ds)
  obtain r1 c1 where step: "bulkUpsert_step e d (r, c) = (r1, c1)"
    by (cases "bulkUpsert_step e d (r, c)")
  have "counted_once e d (r, c) (r1, c1)"
    using bulkUpsert_step_counted [of e d r c] by (simp add: step)
  from counted_once_totals [OF this] obtain ws1 where
    s1: "inserted r1 + updated r1 + skipped r1 = inserted r + updated r + skipped r + 1"
    and s2: "length (warnings r1) + skipped r = length (warnings r) + skipped r1"
    and s3: "written c1 = written c @ ws1" "items r1 = items r @ map Some ws1"
    by blast
  from Cons.prems have "bulkUpsert_loop e ds (r1, c1) = (r', c')"
    by (simp add: step)
  from Cons.IH [OF this] obtain ws2 where
    t1: "inserted r' + updated r' + skipped r' = inserted r1 + updated r1 + skipped r1 + length ds"
    and t2: "length (warnings r') + skipped r1 = length (warnings r1) + skipped r'"
    and t3: "written c' = written c1 @ ws2" "items r' = items r1 @ map Some ws2"
    by blast
  have "written c' = written c @ (ws1 @ ws2) \<and> items r' = items r @ map Some (ws1 @ ws2)"
    using s3 t3 by simp
  then have "\<exists>ws. written c' = written c @ ws \<and> items r' = items r @ map Some ws"
    by blast
  with s1 s2 t1 t2 show ?case by simp
qed

text \<open>
  Claim C4. For every list of candidates given to \<open>bulkUpsert\<close>: the counters of
  inserted, updated and skipped candidates add up to the number of candidates; there is one
  warning per skipped candidate; the items returned are exactly the documents written to
  the store during the batch, in order; and each candidate \<open>d\<close> of the list, met after
  the candidates \<open>ds1\<close> before it, is counted once (as updated when its key holds a
  record and the calls to the store succeed, as inserted when the key holds none and the
  calls succeed, as skipped with a warning when a call fails), after which the loop goes
  on with the candidates \<open>ds2\<close> that follow.
\<close>

theorem bulkUpsert_accounting:
  assumes "bulkUpsert e ds c = (r, c')"
  shows "inserted r + updated r + skipped r = length ds
     \<and> length (warnings r) = skipped r
     \<and> items r = map Some (drop (length (written c)) (written c'))
     \<and> take (length (written c)) (written c') = written c
     \<and> (\<forall>ds1 d ds2. ds = ds1 @ d # ds2 \<longrightarrow>
          counted_once e d (bulkUpsert e ds1 c) (bulkUpsert e (ds1 @ [d]) c)
          \<and> bulkUpsert e ds c = bulkUpsert_loop e ds2 (bulkUpsert e (ds1 @ [d]) c))"
proof -
  let ?r0 = "\<lparr>inserted = 0, updated = 0, skipped = 0, warnings = [], items = []\<rparr>"
  from assms have "bulkUpsert_loop e ds (?r0, c) = (r, c')"
    by (simp add: bulkUpsert_def)
  from bulkUpsert_loop_totals [OF this] obtain ws where
    tot: "inserted r + updated r + skipped r = length ds"
    and warn: "length (warnings r) = skipped r"
    and log: "written c' = written c @ ws" "items r = map Some ws"
    by auto
  have each: "counted_once e d (bulkUpsert e ds1 c) (bulkUpsert e (ds1 @ [d]) c)
      \<and> bulkUpsert e ds c = bulkUpsert_loop e ds2 (bulkUpsert e (ds1 @ [d]) c)"
    if "ds = ds1 @ d # ds2" for ds1 d ds2
  proof -
    obtain r1 c1 where before: "bulkUpsert e ds1 c = (r1, c1)"
      by (cases "bulkUpsert e ds1 c")
    have after: "bulkUpsert e (ds1 @ [d]) c = bulkUpsert_step e d (r1, c1)"
      using before by (simp add: bulkUpsert_def bulkUpsert_loop_append)
    have "counted_once e d (r1, c1) (bulkUpsert_step e d (r1, c1))"
      by (rule bulkUpsert_step_counted)
    moreover have "bulkUpsert e ds c = bulkUpsert_loop e ds2 (bulkUpsert e (ds1 @ [d]) c)"
      using that by (simp add: bulkUpsert_def bulkUpsert_loop_append)
    ultimately show ?thesis
      by (simp add: before after)
  qed
  from tot warn log each show ?thesis by simp
qed

theorem bulkUpsert_accounting_witness:
  "inserted (fst (bulkUpsert flaky_env batch_of_three morning_store))
     + updated (fst (bulkUpsert flaky_env batch_of_three morning_store))
     + skipped (fst (bulkUpsert flaky_env batch_of_three morning_store)) = 3
   \<and> length (warnings (fst (bulkUpsert flaky_env batch_of_three morning_store)))
       = skipped (fst (bulkUpsert flaky_env batch_of_three morning_store))
   \<and> items (fst (bulkUpsert flaky_env batch_of_three morning_store))
       = map Some (written (snd (bulkUpsert flaky_env batch_of_three morning_store)))
   \<and> counted_once flaky_env bare_day (bulkUpsert flaky_env [] morning_store)
        (bulkUpsert flaky_env [bare_day] morning_store)
   \<and> counted_once flaky_env day_two (bulkUpsert flaky_env [bare_day] morning_store)
        (bulkUpsert flaky_env [bare_day, day_two] morning_store)
   \<and> counted_once flaky_env day_three (bulkUpsert flaky_env [bare_day, day_two] morning_store)
        (bulkUpsert flaky_env [bare_day, day_two, day_three] morning_store)
   \<and> updated (fst (bulkUpsert flaky_env batch_of_three morning_store)) = 1
   \<and> inserted (fst (bulkUpsert flaky_env batch_of_three morning_store)) = 1
   \<and> skipped (fst (bulkUpsert flaky_env batch_of_three morning_store)) = 1"
proof -
  have run: "bulkUpsert flaky_env batch_of_three morning_store
      = (fst (bulkUpsert flaky_env batch_of_three morning_store),
         snd (bulkUpsert flaky_env batch_of_three morning_store))"
    by simp
  note acc = bulkUpsert_accounting [OF run]
  have w0: "written morning_store = []"
    by (simp add: morning_store_def)
  have sp: "batch_of_three = [] @ bare_day # [day_two, day_three]"
    "batch_of_three = [bare_day] @ day_two # [day_three]"
    "batch_of_three = [bare_day, day_two] @ day_three # []"
    by (simp_all add: batch_of_three_def)
  have counts: "updated (fst (bulkUpsert flaky_env batch_of_three morning_store)) = 1"
    "inserted (fst (bulkUpsert flaky_env batch_of_three morning_store)) = 1"
    "skipped (fst (bulkUpsert flaky_env batch_of_three morning_store)) = 1"
    by code_simp+
  from acc have each: "ds1 @ d # ds2 = batch_of_three \<Longrightarrow>
      counted_once flaky_env d (bulkUpsert flaky_env ds1 morning_store)
        (bulkUpsert flaky_env (ds1 @ [d]) morning_store)" for ds1 d ds2
    by metis
  have c1: "counted_once flaky_env bare_day (bulkUpsert flaky_env [] morning_store)
        (bulkUpsert flaky_env [bare_day] morning_store)"
    using each [of "[]" bare_day "[day_two, day_three]"] by (simp add: batch_of_three_def)
  have c2: "counted_once flaky_env day_two (bulkUpsert flaky_env [bare_day] morning_store)
        (bulkUpsert flaky_env [bare_day, day_two] morning_store)"
    using each [of "[bare_day]" day_two "[day_three]"] by (simp add: batch_of_three_def)
  have c3: "counted_once flaky_env day_three (bulkUpsert flaky_env [bare_day, day_two] morning_store)
        (bulkUpsert flaky_env [bare_day, day_two, day_three] morning_store)"
    using each [of "[bare_day, day_two]" day_three "[]"] by (simp add: batch_of_three_def)
  from acc have tot: "inserted (fst (bulkUpsert flaky_env batch_of_three morning_store))
     + updated (fst (bulkUpsert flaky_env batch_of_three morning_store))
     + skipped (fst (bulkUpsert flaky_env batch_of_three morning_store)) = 3"
    by (simp add: batch_of_three_def)
  from acc have warn: "length (warnings (fst (bulkUpsert flaky_env batch_of_three morning_store)))
       = skipped (fst (bulkUpsert flaky_env batch_of_three morning_store))"
    by simp
  from acc have it: "items (fst (bulkUpsert flaky_env batch_of_three morning_store))
       = map Some (written (snd (bulkUpsert flaky_env batch_of_three morning_store)))"
    by (simp add: w0)
  from tot warn it c1 c2 c3 counts show ?thesis by simp
qed



section \<open>Duplicate dates in a spreadsheet\<close>

lemma upt_0_Suc: "[0..<Suc n] = 0 # map Suc [0..<n]"
  by (simp add: upt_conv_Cons map_Suc_upt del: upt_Suc)

lemma filter_upt_0_Suc:
  "filter P [0..<Suc n] = (if P 0 then [0] else []) @ map Suc (filter (\<lambda>i. P (Suc i)) [0..<n])"
  unfolding upt_0_Suc by (simp add: filter_map o_def)

lemma dedupe_acc:
  "dedupe rows (seen, u, w) =
     (seen \<union> fecha ` set rows,
      u @ map (nth rows)
            (filter (\<lambda>i. fecha (rows ! i) \<notin> seen \<union> fecha ` set (take i rows))
               [0..<length rows]),
      w @ map (\<lambda>i. duplicate_warning (fecha (rows ! i)))
            (filter (\<lambda>i. \<not> fecha (rows ! i) \<notin> seen \<union> fecha ` set (take i rows))
               [0..<length rows]))"
proof (induction rows arbitrary: seen u w)
  case Nil
  show ?case by simp
next
  case (Cons x xs)
  show ?case
  proof (cases "fecha x \<in> seen")
    case True
    then have ab: "insert (fecha x) (seen \<union> A) = seen \<union> A" for A by blast
    have p: "(a \<notin> seen \<and> a \<noteq> fecha x \<and> R) = (a \<notin> seen \<and> R)" for a R
      using True by auto
    have q: "(a \<in> seen \<or> a = fecha x \<or> R) = (a \<in> seen \<or> R)" for a R
      using True by auto
    from True show ?thesis
      by (simp add: Cons.IH filter_upt_0_Suc o_def ab p q del: upt_Suc)
  next
    case False
    then show ?thesis
      by (simp add: Cons.IH filter_upt_0_Suc o_def conj_ac disj_ac del: upt_Suc)
  qed
qed

lemma dedupe_kept:
  "dedupe rows ({}, [], w) = (fecha ` set rows, kept_rows rows, w @ duplicate_warnings rows)"
  by (simp add: dedupe_acc kept_rows_def duplicate_warnings_def first_occurrence_def [abs_def])

lemma kept_and_dropped:
  "length (kept_rows rows) + length (duplicate_warnings rows) = length rows"
proof -
  have "length (filter (first_occurrence rows) [0..<length rows])
      + length (filter (\<lambda>i. \<not> first_occurrence rows i) [0..<length rows])
      = length [0..<length rows]"
    by (rule sum_length_filter_compl)
  then show ?thesis
    by (simp add: kept_rows_def duplicate_warnings_def)
qed

lemma kept_rows_distinct: "distinct (map fecha (kept_rows rows))"
proof -
  have inj: "inj_on (\<lambda>i. fecha (rows ! i)) {i. i < length rows \<and> first_occurrence rows i}"
  proof (rule inj_onI)
    fix i j
    assume i: "i \<in> {i. i < length rows \<and> first_occurrence rows i}"
      and j: "j \<in> {i. i < length rows \<and> first_occurrence rows i}"
      and eq: "fecha (rows ! i) = fecha (rows ! j)"
    show "i = j"
    proof (rule ccontr)
      assume ne: "i \<noteq> j"
      have earlier: False if lt: "a < b" and b: "b < length rows" "first_occurrence rows b"
        and same: "fecha (rows ! a) = fecha (rows ! b)" for a b
      proof -
        from lt b(1) have "rows ! a \<in> set (take b rows)"
          by (auto simp: in_set_conv_nth intro!: exI [of _ a])
        then have "fecha (rows ! a) \<in> fecha ` set (take b rows)"
          by blast
        with b(2) same show False
          by (simp add: first_occurrence_def)
      qed
      from ne consider "i < j" | "j < i" by linarith
      then show False
      proof cases
        case 1
        with earlier [of i j] j eq show False by simp
      next
        case 2
        with earlier [of j i] i eq show False by simp
      qed
    qed
  qed
  have "distinct (map (\<lambda>i. fecha (rows ! i)) (filter (first_occurrence rows) [0..<length rows]))"
    by (rule distinct_map [THEN iffD2]) (auto intro: inj_on_subset [OF inj])
  then show ?thesis
    by (simp add: kept_rows_def o_def)
qed

lemma processExcelData_kept:
  "processExcelData e excelData c =
     (case process_rows 0 excelData ([], []) of
        (warnings1, validRows) \<Rightarrow>
          (case bulkUpsert e (kept_rows validRows) c of
             (result, c') \<Rightarrow>
               (result\<lparr>warnings := warnings1 @ duplicate_warnings validRows\<rparr>, c')))"
  by (simp add: processExcelData_def dedupe_kept split: prod.splits)

text \<open>
  Claim C5. For every list of normalized rows, the second loop of the import keeps exactly
  the rows that are the first occurrence of their date, in file order, and appends one
  duplicate-date warning for every other row, in file order; the rows kept have distinct
  dates, and the rows kept and the warnings add up to the rows given. The import hands the
  rows kept to the bulk upsert. In the scenario of three rows (two for 2025-01-01, then a
  vacation row for 2025-01-02) on an empty store without faults, two records are stored
  (the morning row of 2025-01-01 and the vacation of 2025-01-02), two are counted as
  inserted, and the only warning is the duplicate date 2025-01-01.
\<close>

theorem excel_duplicates_first_wins:
  "dedupe validRows ({}, [], w)
     = (fecha ` set validRows, kept_rows validRows, w @ duplicate_warnings validRows)
   \<and> distinct (map fecha (kept_rows validRows))
   \<and> length (kept_rows validRows) + length (duplicate_warnings validRows) = length validRows
   \<and> processExcelData e excelData c =
       (case process_rows 0 excelData ([], []) of
          (warnings1, validRows) \<Rightarrow>
            (case bulkUpsert e (kept_rows validRows) c of
               (result, c') \<Rightarrow>
                 (result\<lparr>warnings := warnings1 @ duplicate_warnings validRows\<rparr>, c')))
   \<and> inserted (fst (processExcelData quiet_env scenario_rows empty_store)) = 2
   \<and> updated (fst (processExcelData quiet_env scenario_rows empty_store)) = 0
   \<and> skipped (fst (processExcelData quiet_env scenario_rows empty_store)) = 0
   \<and> warnings (fst (processExcelData quiet_env scenario_rows empty_store))
       = [duplicate_warning ''2025-01-01'']
   \<and> map (map_option doc_fecha) (items (fst (processExcelData quiet_env scenario_rows empty_store)))
       = [Some ''2025-01-01'', Some ''2025-01-02'']
   \<and> map doc_fecha (documents (snd (processExcelData quiet_env scenario_rows empty_store)))
       = [''2025-01-01'', ''2025-01-02'']
   \<and> map doc_turno (documents (snd (processExcelData quiet_env scenario_rows empty_store)))
       = [Some manana, None]
   \<and> map doc_esVacaciones (documents (snd (processExcelData quiet_env scenario_rows empty_store)))
       = [False, True]"
proof -
  have s1: "inserted (fst (processExcelData quiet_env scenario_rows empty_store)) = 2"
    by code_simp
  have s2: "updated (fst (processExcelData quiet_env scenario_rows empty_store)) = 0"
    by code_simp
  have s3: "skipped (fst (processExcelData quiet_env scenario_rows empty_store)) = 0"
    by code_simp
  have s4: "warnings (fst (processExcelData quiet_env scenario_rows empty_store))
       = [duplicate_warning ''2025-01-01'']"
    by code_simp
  have s5: "map (map_option doc_fecha)
        (items (fst (processExcelData quiet_env scenario_rows empty_store)))
       = [Some ''2025-01-01'', Some ''2025-01-02'']"
    by code_simp
  have s6: "map doc_fecha (documents (snd (processExcelData quiet_env scenario_rows empty_store)))
       = [''2025-01-01'', ''2025-01-02'']"
    by code_simp
  have s7: "map doc_turno (documents (snd (processExcelData quiet_env scenario_rows empty_store)))
       = [Some manana, None]"
    by code_simp
  have s8: "map doc_esVacaciones
        (documents (snd (processExcelData quiet_env scenario_rows empty_store)))
       = [False, True]"
    by code_simp
  show ?thesis
    using dedupe_kept [of validRows w] kept_rows_distinct [of validRows]
      kept_and_dropped [of validRows] processExcelData_kept [of e excelData c]
      s1 s2 s3 s4 s5 s6 s7 s8
    by blast
qed


section \<open>Vacation clears the shift\<close>

lemma upsertTurno_rules_cleared:
  assumes "upsertTurno_rules glob data = Inr v"
  shows "esVacaciones v = esVacaciones data \<and> vacation_cleared v"
proof -
  from assms obtain f where v: "v = clear_on_vacation (data\<lparr>fecha := f\<rparr>)"
    by (auto simp: upsertTurno_rules_def turnoInsertSchema_parse_def Let_def
        split: sum.splits if_splits error.splits optional.splits)
  then show ?thesis
    by (simp add: clear_on_vacation_def vacation_cleared_def)
qed

lemma created_cleared:
  assumes "vacation_cleared d"
  shows "doc_esVacaciones (createTurnoDocument t d) = esVacaciones d
     \<and> (esVacaciones d \<longrightarrow> shift_absent (createTurnoDocument t d))"
  using assms
  by (simp add: createTurnoDocument_def vacation_cleared_def shift_absent_def value_of_def
      split: if_splits)

lemma updated_cleared:
  assumes "vacation_cleared d"
  shows "doc_esVacaciones (updatedDocument old d t) = esVacaciones d
     \<and> (esVacaciones d \<longrightarrow> shift_absent (updatedDocument old d t))"
  using assms
  by (simp add: updatedDocument_def vacation_cleared_def shift_absent_def overlay_def
      split: if_splits)

text \<open>A successful upsert returns the document it has stored under the candidate's key.\<close>

lemma upsert_success:
  assumes "upsert e d c = (Inr res, c')"
  shows "\<exists>doc. res = Some doc \<and> stored_at c' d = Some doc
     \<and> ((\<exists>t. doc = createTurnoDocument t d) \<or> (\<exists>old t. doc = updatedDocument old d t))"
proof (cases "stored_at c d")
  case None
  have f0: "fault e (calls c) = None"
    using assms by (auto simp: upsert_closed split: option.splits)
  have f1: "fault e (calls c + 1) = None"
    using assms None f0 by (auto simp: upsert_closed create_closed split: option.splits)
  from upsert_fresh [OF None f0 f1] assms show ?thesis
    by auto
next
  case (Some old)
  then have st: "stored_at (tick c) d = Some old" by simp
  have f0: "fault e (calls c) = None"
    using assms by (auto simp: upsert_closed split: option.splits)
  have f1: "fault e (calls c + 1) = None"
    using assms Some f0 by (auto simp: upsert_closed update_closed [OF st] split: option.splits)
  have f2: "fault e (calls c + 2) = None"
    using assms Some f0 f1
    by (auto simp: upsert_closed update_closed [OF st] split: option.splits)
  from upsert_existing [OF Some f0 f1 f2] assms show ?thesis
    by auto
qed

lemma upsert_vacation:
  assumes "upsert e d c = (Inr res, c')" and "vacation_cleared d"
  shows "\<exists>doc. res = Some doc \<and> stored_at c' d = Some doc
     \<and> doc_esVacaciones doc = esVacaciones d \<and> (esVacaciones d \<longrightarrow> shift_absent doc)"
proof -
  from upsert_success [OF assms(1)] obtain doc where doc: "res = Some doc"
    "stored_at c' d = Some doc"
    "(\<exists>t. doc = createTurnoDocument t d) \<or> (\<exists>old t. doc = updatedDocument old d t)"
    by blast
  from doc(3) have "doc_esVacaciones doc = esVacaciones d \<and> (esVacaciones d \<longrightarrow> shift_absent doc)"
    using created_cleared [OF assms(2)] updated_cleared [OF assms(2)] by blast
  with doc(1,2) show ?thesis by blast
qed

lemma bulkUpsert_step_items:
  assumes "bulkUpsert_step e d (r, c) = (r', c')"
  shows "items r' = items r
     \<or> (\<exists>res c1 c2. items r' = items r @ [res] \<and> upsert e d c1 = (Inr res, c2))"
  using assms
  by (auto simp: bulkUpsert_step_def bulk_skip_def split: prod.splits sum.splits if_splits)

lemma bulkUpsert_loop_vacation:
  assumes "bulkUpsert_loop e ds (r, c) = (r', c')"
    and "\<forall>d \<in> set ds. vacation_cleared d"
    and "\<forall>doc. Some doc \<in> set (items r) \<longrightarrow> doc_esVacaciones doc \<longrightarrow> shift_absent doc"
  shows "\<forall>doc. Some doc \<in> set (items r') \<longrightarrow> doc_esVacaciones doc \<longrightarrow> shift_absent doc"
  using assms
proof (induction ds arbitrary: r c)
  case Nil
  then show ?case by simp
next
  case (Cons d ds)
  obtain r1 c1 where step: "bulkUpsert_step e d (r, c) = (r1, c1)"
    by (cases "bulkUpsert_step e d (r, c)")
  from Cons.prems(2) have vd: "vacation_cleared d" by simp
  have inv: "\<forall>doc. Some doc \<in> set (items r1) \<longrightarrow> doc_esVacaciones doc \<longrightarrow> shift_absent doc"
  proof (intro allI impI)
    fix doc
    assume mem: "Some doc \<in> set (items r1)" and vac: "doc_esVacaciones doc"
    from bulkUpsert_step_items [OF step]
    consider "items r1 = items r"
      | res ca cb where "items r1 = items r @ [res]" "upsert e d ca = (Inr res, cb)"
      by blast
    then show "shift_absent doc"
    proof cases
      case 1
      with mem vac Cons.prems(3) show ?thesis by simp
    next
      case 2
      from upsert_vacation [OF 2(2) vd] obtain doc' where d': "res = Some doc'"
        "doc_esVacaciones doc' = esVacaciones d" "esVacaciones d \<longrightarrow> shift_absent doc'"
        by blast
      from mem 2(1) have "Some doc \<in> set (items r) \<or> doc = doc'"
        by (auto simp: d'(1))
      with vac Cons.prems(3) d'(2,3) show ?thesis by auto
    qed
  qed
  from Cons.prems(1) have "bulkUpsert_loop e ds (r1, c1) = (r', c')"
    by (simp add: step)
  from Cons.IH [OF this _ inv] Cons.prems(2) show ?case by simp
qed

lemma turnoData_of_cleared: "vacation_cleared (turnoData_of vr)"
  by (simp add: turnoData_of_def vacation_cleared_def)

lemma process_rows_cleared:
  assumes "process_rows i rows (ws, valid) = (ws', valid')"
    and "\<forall>d \<in> set valid. vacation_cleared d"
  shows "\<forall>d \<in> set valid'. vacation_cleared d"
  using assms
proof (induction rows arbitrary: i ws valid)
  case Nil
  then show ?case by simp
next
  case (Cons row rows)
  show ?case
  proof (cases "excelRowSchema_parse row")
    case (Inl err)
    with Cons.prems(1) have
      "process_rows (Suc i) rows (ws @ [row_error_warning (i + 2) err], valid) = (ws', valid')"
      by (simp add: Let_def)
    from Cons.IH [OF this Cons.prems(2)] show ?thesis .
  next
    case (Inr vr)
    with Cons.prems(1) obtain ws1 where
      "process_rows (Suc i) rows (ws1, valid @ [turnoData_of vr]) = (ws', valid')"
      by (simp add: Let_def)
    moreover have "\<forall>d \<in> set (valid @ [turnoData_of vr]). vacation_cleared d"
      using Cons.prems(2) turnoData_of_cleared by simp
    ultimately show ?thesis
      by (rule Cons.IH)
  qed
qed

lemma kept_rows_subset: "set (kept_rows rows) \<subseteq> set rows"
  by (auto simp: kept_rows_def)

lemma processExcelData_vacation:
  assumes "processExcelData e excelData c = (r, c')"
    and "Some doc \<in> set (items r)" and "doc_esVacaciones doc"
  shows "shift_absent doc"
proof -
  obtain ws valid where pr: "process_rows 0 excelData ([], []) = (ws, valid)"
    by (cases "process_rows 0 excelData ([], [])")
  obtain r0 c0 where bu: "bulkUpsert e (kept_rows valid) c = (r0, c0)"
    by (cases "bulkUpsert e (kept_rows valid) c")
  from assms(1) have r: "items r = items r0"
    by (auto simp: processExcelData_kept pr bu)
  have "\<forall>d \<in> set valid. vacation_cleared d"
    using process_rows_cleared [OF pr] by simp
  then have cl: "\<forall>d \<in> set (kept_rows valid). vacation_cleared d"
    using kept_rows_subset by blast
  from bu have "bulkUpsert_loop e (kept_rows valid)
      (\<lparr>inserted = 0, updated = 0, skipped = 0, warnings = [], items = []\<rparr>, c) = (r0, c0)"
    by (simp add: bulkUpsert_def)
  from bulkUpsert_loop_vacation [OF this cl] have
    "\<forall>doc. Some doc \<in> set (items r0) \<longrightarrow> doc_esVacaciones doc \<longrightarrow> shift_absent doc"
    by simp
  with assms(2,3) r show ?thesis by simp
qed

lemma upsertTurno_vacation_returns:
  assumes "esVacaciones data" and "turnoInsertSchema_parse data = Inr data"
    and "fault e (calls c) = None" and "fault e (calls c + 1) = None"
    and "fault e (calls c + 2) = None"
  shows "\<exists>doc c'. upsertTurno glob e data c = (Inr (Some doc), c')"
proof -
  from assms(2) have ok: "turnoInsertSchema_issues data = []"
    by (simp add: parse_ok_iff)
  have rules: "upsertTurno_rules glob data = Inr (clear_on_vacation data)"
    unfolding upsertTurno_rules_valid [OF ok] Let_def
    using assms(1) by (simp add: clear_on_vacation_def present_def)
  show ?thesis
  proof (cases "stored_at c (clear_on_vacation data)")
    case None
    from upsert_fresh [OF None assms(3,4)] show ?thesis
      by (auto simp: upsertTurno_def rules)
  next
    case (Some old)
    from upsert_existing [OF Some assms(3,4,5)] show ?thesis
      by (auto simp: upsertTurno_def rules)
  qed
qed

text \<open>
  Claim C2. For every candidate on vacation, both paths produce a record without shift
  data, whatever the candidate carried in those fields. The single-record path: when
  \<open>upsertTurno\<close> returns, it returns a record that is stored, is on vacation and has
  the shift and both times absent; and it does return when the candidate passes the schema
  and the calls to the store succeed. The import path: the candidate built from a
  validated row on vacation has the shift and both times undefined, and every record on
  vacation among the items that the import returns has the shift and both times absent.
\<close>

theorem vacation_clears_shift_fields:
  "(esVacaciones data \<and> upsertTurno glob e data c = (Inr res, c')
      \<longrightarrow> (\<exists>doc. res = Some doc \<and> doc \<in> set (documents c')
             \<and> doc_esVacaciones doc \<and> shift_absent doc))
   \<and> (esVacaciones data \<and> turnoInsertSchema_parse data = Inr data
       \<and> fault e (calls c) = None \<and> fault e (calls c + 1) = None
       \<and> fault e (calls c + 2) = None
      \<longrightarrow> (\<exists>doc c''. upsertTurno glob e data c = (Inr (Some doc), c'')))
   \<and> (excelRowSchema_parse row = Inr vr \<and> v_vacaciones vr
      \<longrightarrow> esVacaciones (turnoData_of vr) \<and> turno (turnoData_of vr) = Undefined
          \<and> startShift (turnoData_of vr) = Undefined \<and> endShift (turnoData_of vr) = Undefined)
   \<and> (processExcelData e excelData c = (r, c2) \<and> Some doc2 \<in> set (items r)
       \<and> doc_esVacaciones doc2
      \<longrightarrow> shift_absent doc2)"
proof (intro conjI impI)
  assume a: "esVacaciones data \<and> upsertTurno glob e data c = (Inr res, c')"
  then obtain v where v: "upsertTurno_rules glob data = Inr v" and u: "upsert e v c = (Inr res, c')"
    by (auto simp: upsertTurno_def split: sum.splits)
  from upsertTurno_rules_cleared [OF v] a have vac: "esVacaciones v" "vacation_cleared v"
    by simp_all
  from upsert_vacation [OF u vac(2)] vac(1) obtain doc where
    "res = Some doc" "stored_at c' v = Some doc" "doc_esVacaciones doc" "shift_absent doc"
    by auto
  moreover from this(2) have "doc \<in> set (documents c')"
    by (auto simp: stored_at_def find_Some_iff)
  ultimately show "\<exists>doc. res = Some doc \<and> doc \<in> set (documents c')
      \<and> doc_esVacaciones doc \<and> shift_absent doc"
    by blast
next
  assume "esVacaciones data \<and> turnoInsertSchema_parse data = Inr data
       \<and> fault e (calls c) = None \<and> fault e (calls c + 1) = None
       \<and> fault e (calls c + 2) = None"
  then show "\<exists>doc c''. upsertTurno glob e data c = (Inr (Some doc), c'')"
    using upsertTurno_vacation_returns by blast
next
  assume "excelRowSchema_parse row = Inr vr \<and> v_vacaciones vr"
  then show "esVacaciones (turnoData_of vr)" "turno (turnoData_of vr) = Undefined"
    "startShift (turnoData_of vr) = Undefined" "endShift (turnoData_of vr) = Undefined"
    by (simp_all add: turnoData_of_def)
next
  assume "processExcelData e excelData c = (r, c2) \<and> Some doc2 \<in> set (items r)
       \<and> doc_esVacaciones doc2"
  then show "shift_absent doc2"
    using processExcelData_vacation by blast
qed

theorem vacation_clears_shift_fields_witness:
  "esVacaciones vacation_with_times
   \<and> startShift vacation_with_times = Value ''22:00''
   \<and> fst (upsertTurno detectServerLocale quiet_env vacation_with_times morning_store)
       = Inr (Some vacation_2025_01_01)
   \<and> vacation_2025_01_01
       \<in> set (documents (snd (upsertTurno detectServerLocale quiet_env vacation_with_times
                                 morning_store)))
   \<and> shift_absent vacation_2025_01_01
   \<and> map_sum id v_vacaciones (excelRowSchema_parse vacation_row) = Inr True
   \<and> map_sum id v_startshift (excelRowSchema_parse vacation_row) = Inr (Some ''22:00'')
   \<and> map_sum id (startShift \<circ> turnoData_of) (excelRowSchema_parse vacation_row) = Inr Undefined
   \<and> items (fst (processExcelData quiet_env [vacation_row] morning_store))
       = [Some vacation_2025_01_03]
   \<and> shift_absent vacation_2025_01_03"
proof -
  have vac: "esVacaciones vacation_with_times" "startShift vacation_with_times = Value ''22:00''"
    by (simp_all add: vacation_with_times_def)
  have ok: "turnoInsertSchema_parse vacation_with_times = Inr vacation_with_times"
    by (simp add: turnoInsertSchema_parse_def turnoInsertSchema_issues_def
        vacation_with_times_def iso_date_regex_def all_digits_def is_digit_def hhmm_regex_def)
  have f: "fault quiet_env n = None" for n
    by (simp add: quiet_env_def)
  have one: "fst (upsertTurno detectServerLocale quiet_env vacation_with_times morning_store)
       = Inr (Some vacation_2025_01_01)"
    by code_simp
  then have run: "upsertTurno detectServerLocale quiet_env vacation_with_times morning_store
      = (Inr (Some vacation_2025_01_01),
         snd (upsertTurno detectServerLocale quiet_env vacation_with_times morning_store))"
    by (metis prod.collapse)
  have parsed: "map_sum id v_vacaciones (excelRowSchema_parse vacation_row) = Inr True"
    "map_sum id v_startshift (excelRowSchema_parse vacation_row) = Inr (Some ''22:00'')"
    by code_simp+
  then obtain vr where vr: "excelRowSchema_parse vacation_row = Inr vr" "v_vacaciones vr"
    by (cases "excelRowSchema_parse vacation_row") auto
  have many: "items (fst (processExcelData quiet_env [vacation_row] morning_store))
       = [Some vacation_2025_01_03]"
    by code_simp
  have runs: "processExcelData quiet_env [vacation_row] morning_store
      = (fst (processExcelData quiet_env [vacation_row] morning_store),
         snd (processExcelData quiet_env [vacation_row] morning_store))"
    by simp
  have v3: "doc_esVacaciones vacation_2025_01_03"
    by (simp add: vacation_2025_01_03_def)
  note inst = vacation_clears_shift_fields [of vacation_with_times detectServerLocale quiet_env
      morning_store "Some vacation_2025_01_01"
      "snd (upsertTurno detectServerLocale quiet_env vacation_with_times morning_store)"
      vacation_row vr "[vacation_row]"
      "fst (processExcelData quiet_env [vacation_row] morning_store)"
      "snd (processExcelData quiet_env [vacation_row] morning_store)"
      vacation_2025_01_03]
  from inst vac run have a: "vacation_2025_01_01
       \<in> set (documents (snd (upsertTurno detectServerLocale quiet_env vacation_with_times
                                 morning_store)))"
    and b: "shift_absent vacation_2025_01_01"
    by auto
  from inst vr have c: "startShift (turnoData_of vr) = Undefined"
    by blast
  then have c': "map_sum id (startShift \<circ> turnoData_of) (excelRowSchema_parse vacation_row)
      = Inr Undefined"
    by (simp add: vr(1))
  from inst runs many v3 have d: "shift_absent vacation_2025_01_03"
    by auto
  from vac one a b parsed c' many d show ?thesis by blast
qed


section \<open>Facts about the statistics\<close>

lemma getStats_where_in_range: "getStats_where from_date to_date d = in_range from_date to_date d"
  by (simp add: getStats_where_def in_range_def)

lemma json_filter_in_range:
  "(if truthy_str from_date \<and> doc_fecha d < str_of from_date then False
    else if truthy_str to_date \<and> doc_fecha d > str_of to_date then False
    else True) = in_range from_date to_date d"
  by (auto simp: in_range_def)

lemma json_loop_eq: "json_getStats_loop ds stats = getStats_loop ds stats"
  by (induction ds arbitrary: stats) simp_all

lemma getStats_closed:
  "getStats e from_date to_date c =
     (case fault e (calls c) of
        Some msg \<Rightarrow> (Inl (CosmosFailure msg), tick c)
      | None \<Rightarrow>
          (Inr (getStats_loop (filter (in_range from_date to_date) (documents c))
                  \<lparr>total_stats = length (filter (in_range from_date to_date) (documents c)),
                   porTurno = Map.empty, vacaciones = 0\<rparr>),
           tick c))"
  by (simp add: getStats_def container_query_def getStats_where_in_range [abs_def]
      split: option.splits)

lemma json_getStats_closed:
  "json_getStats data from_date to_date =
     getStats_loop (filter (in_range from_date to_date) data)
       \<lparr>total_stats = length (filter (in_range from_date to_date) data),
        porTurno = Map.empty, vacaciones = 0\<rparr>"
proof (cases "truthy_str from_date \<or> truthy_str to_date")
  case True
  then show ?thesis
    by (simp add: json_getStats_def json_loop_eq json_filter_in_range Let_def)
next
  case False
  then have "filter (in_range from_date to_date) data = data"
    by (simp add: in_range_def)
  with False show ?thesis
    by (simp add: json_getStats_def json_loop_eq Let_def)
qed




section \<open>The statistics of a set of records\<close>




section \<open>The two backends compute the same statistics\<close>

text \<open>
  Claim C10. On the same list of stored records and the same bounds, the statistics of
  the cloud backend, when its query succeeds (which it does when the call to the store
  succeeds), are those of the JSON backend. In both, a record on vacation is counted under
  vacations only, even when it names a shift.
\<close>

theorem getStats_backends_agree:
  "(fault e (calls c) = None \<longrightarrow>
      fst (getStats e from_date to_date c)
        = Inr (json_getStats (documents c) from_date to_date))
   \<and> (getStats e from_date to_date c = (Inr s, c') \<longrightarrow>
        json_getStats (documents c) from_date to_date = s)
   \<and> (doc_esVacaciones d \<and> fault e (calls c) = None \<and> documents c = [d] \<longrightarrow>
        json_getStats [d] None None
          = \<lparr>total_stats = 1, porTurno = Map.empty, vacaciones = 1\<rparr>
        \<and> fst (getStats e None None c)
          = Inr \<lparr>total_stats = 1, porTurno = Map.empty, vacaciones = 1\<rparr>)"
proof (intro conjI impI)
  assume "fault e (calls c) = None"
  then show "fst (getStats e from_date to_date c)
      = Inr (json_getStats (documents c) from_date to_date)"
    by (simp add: getStats_closed json_getStats_closed)
next
  assume "getStats e from_date to_date c = (Inr s, c')"
  then show "json_getStats (documents c) from_date to_date = s"
    by (auto simp: getStats_closed json_getStats_closed split: option.splits)
next
  assume a: "doc_esVacaciones d \<and> fault e (calls c) = None \<and> documents c = [d]"
  then show "json_getStats [d] None None
      = \<lparr>total_stats = 1, porTurno = Map.empty, vacaciones = 1\<rparr>"
    by (simp add: json_getStats_closed in_range_def truthy_str_def)
  from a show "fst (getStats e None None c)
      = Inr \<lparr>total_stats = 1, porTurno = Map.empty, vacaciones = 1\<rparr>"
    by (simp add: getStats_closed in_range_def truthy_str_def)
qed

theorem getStats_backends_agree_witness:
  "fst (getStats quiet_env (Some ''2025-01-01'') (Some ''2025-01-04'') mixed_store)
     = Inr (json_getStats (documents mixed_store) (Some ''2025-01-01'') (Some ''2025-01-04''))
   \<and> total_stats (json_getStats (documents mixed_store) (Some ''2025-01-01'')
        (Some ''2025-01-04'')) = 2
   \<and> vacaciones (json_getStats (documents mixed_store) (Some ''2025-01-01'')
        (Some ''2025-01-04'')) = 1
   \<and> porTurno (json_getStats (documents mixed_store) (Some ''2025-01-01'')
        (Some ''2025-01-04'')) manana = Some 1
   \<and> json_getStats [vacation_with_shift] None None
        = \<lparr>total_stats = 1, porTurno = Map.empty, vacaciones = 1\<rparr>
   \<and> fst (getStats quiet_env None None
             \<lparr>documents = [vacation_with_shift], calls = 0, written = []\<rparr>)
        = Inr \<lparr>total_stats = 1, porTurno = Map.empty, vacaciones = 1\<rparr>
   \<and> doc_turno vacation_with_shift = Some ''noche''"
proof -
  have f: "fault quiet_env n = None" for n
    by (simp add: quiet_env_def)
  have a: "fst (getStats quiet_env (Some ''2025-01-01'') (Some ''2025-01-04'') mixed_store)
     = Inr (json_getStats (documents mixed_store) (Some ''2025-01-01'') (Some ''2025-01-04''))"
    using getStats_backends_agree [of quiet_env mixed_store "Some ''2025-01-01''"
        "Some ''2025-01-04''"] f
    by blast
  have b: "total_stats (json_getStats (documents mixed_store) (Some ''2025-01-01'')
        (Some ''2025-01-04'')) = 2"
    "vacaciones (json_getStats (documents mixed_store) (Some ''2025-01-01'')
        (Some ''2025-01-04'')) = 1"
    "porTurno (json_getStats (documents mixed_store) (Some ''2025-01-01'')
        (Some ''2025-01-04'')) manana = Some 1"
    by code_simp+
  have v: "doc_esVacaciones vacation_with_shift" "doc_turno vacation_with_shift = Some ''noche''"
    by (simp_all add: vacation_with_shift_def)
  have c: "json_getStats [vacation_with_shift] None None
        = \<lparr>total_stats = 1, porTurno = Map.empty, vacaciones = 1\<rparr>
      \<and> fst (getStats quiet_env None None
             \<lparr>documents = [vacation_with_shift], calls = 0, written = []\<rparr>)
        = Inr \<lparr>total_stats = 1, porTurno = Map.empty, vacaciones = 1\<rparr>"
    using getStats_backends_agree [of quiet_env
        "\<lparr>documents = [vacation_with_shift], calls = 0, written = []\<rparr>" _ _ _ _
        vacation_with_shift] f v(1)
    by simp
  from a b c v(2) show ?thesis by blast
qed


end
